theory Spec2Isabelle
  imports Complex_Main "HOL-Library.Log_Nat"
begin

section \<open>JavaScript numbers\<close>

text \<open>
  The TypeScript sources compute with the JavaScript type \<open>number\<close>. A number is modelled
  as a finite value carrying its exact rational value, one of the two infinities, or NaN.
  The arithmetic below follows ECMAScript on the special values (an infinity times zero is
  NaN, opposite infinities add up to NaN, every comparison with NaN is false). On finite
  values these operations are exact and the two zeros are one value. The rounding and the
  overflow of binary64 are a separate step, \<open>binary64\<close> below, applied where a property
  depends on them.
\<close>

datatype jsnum = Fin rat | PosInf | NegInf | NaN

fun js_isFinite :: "jsnum \<Rightarrow> bool" where
  "js_isFinite (Fin x) = True"
| "js_isFinite PosInf = False"
| "js_isFinite NegInf = False"
| "js_isFinite NaN = False"

fun js_sign :: "jsnum \<Rightarrow> int" where
  "js_sign (Fin x) = (if x < 0 then - 1 else if x = 0 then 0 else 1)"
| "js_sign PosInf = 1"
| "js_sign NegInf = - 1"
| "js_sign NaN = 0"

fun js_neg :: "jsnum \<Rightarrow> jsnum" where
  "js_neg (Fin x) = Fin (- x)"
| "js_neg PosInf = NegInf"
| "js_neg NegInf = PosInf"
| "js_neg NaN = NaN"

fun js_add :: "jsnum \<Rightarrow> jsnum \<Rightarrow> jsnum" where
  "js_add (Fin a) (Fin b) = Fin (a + b)"
| "js_add NaN y = NaN"
| "js_add x NaN = NaN"
| "js_add PosInf NegInf = NaN"
| "js_add NegInf PosInf = NaN"
| "js_add PosInf y = PosInf"
| "js_add NegInf y = NegInf"
| "js_add (Fin a) y = y"

definition js_sub :: "jsnum \<Rightarrow> jsnum \<Rightarrow> jsnum" where
  "js_sub x y = js_add x (js_neg y)"

fun js_mul :: "jsnum \<Rightarrow> jsnum \<Rightarrow> jsnum" where
  "js_mul (Fin a) (Fin b) = Fin (a * b)"
| "js_mul NaN y = NaN"
| "js_mul x NaN = NaN"
| "js_mul x y =
     (if js_sign x * js_sign y = 0 then NaN
      else if 0 < js_sign x * js_sign y then PosInf else NegInf)"

fun js_div :: "jsnum \<Rightarrow> jsnum \<Rightarrow> jsnum" where
  "js_div (Fin a) (Fin b) =
     (if b \<noteq> 0 then Fin (a / b)
      else if a = 0 then NaN else if 0 < a then PosInf else NegInf)"
| "js_div NaN y = NaN"
| "js_div x NaN = NaN"
| "js_div (Fin a) y = Fin 0"
| "js_div PosInf (Fin b) = (if b < 0 then NegInf else PosInf)"
| "js_div NegInf (Fin b) = (if b < 0 then PosInf else NegInf)"
| "js_div x y = NaN"

fun js_lt :: "jsnum \<Rightarrow> jsnum \<Rightarrow> bool" where
  "js_lt (Fin a) (Fin b) = (a < b)"
| "js_lt NaN y = False"
| "js_lt x NaN = False"
| "js_lt PosInf y = False"
| "js_lt x NegInf = False"
| "js_lt x y = True"

definition js_gt :: "jsnum \<Rightarrow> jsnum \<Rightarrow> bool" where
  "js_gt x y = js_lt y x"

fun js_le :: "jsnum \<Rightarrow> jsnum \<Rightarrow> bool" where
  "js_le NaN y = False"
| "js_le x NaN = False"
| "js_le x y = (x = y \<or> js_lt x y)"

definition js_ge :: "jsnum \<Rightarrow> jsnum \<Rightarrow> bool" where
  "js_ge x y = js_le y x"

text \<open>
  \<open>Math.trunc\<close> drops the fractional digits; \<open>Math.max\<close> and \<open>Math.min\<close> are NaN as soon
  as one argument is.
\<close>

fun js_trunc :: "jsnum \<Rightarrow> jsnum" where
  "js_trunc (Fin x) = Fin (of_int (if 0 \<le> x then \<lfloor>x\<rfloor> else \<lceil>x\<rceil>))"
| "js_trunc x = x"

fun js_max :: "jsnum \<Rightarrow> jsnum \<Rightarrow> jsnum" where
  "js_max NaN y = NaN"
| "js_max x NaN = NaN"
| "js_max x y = (if js_lt x y then y else x)"

text \<open>
  \<open>Number(x.toFixed(d))\<close>: \<open>toFixed\<close> prints the sign and then the \<open>n / 10^d\<close> closest to
  the absolute value, the larger \<open>n\<close> of two equally close ones; \<open>Number\<close> reads the digits
  back. NaN and the infinities print as their names and read back as themselves. (From
  \<open>10^21\<close> on \<open>toFixed\<close> prints the number itself; a binary64 of that size is an integer,
  which rounding to \<open>d\<close> decimals leaves alone.)
\<close>

fun toFixed :: "nat \<Rightarrow> jsnum \<Rightarrow> jsnum" where
  "toFixed d (Fin x) =
     (if x < 0 then Fin (- (of_int \<lfloor>(- x) * 10 ^ d + 1 / 2\<rfloor> / 10 ^ d))
      else Fin (of_int \<lfloor>x * 10 ^ d + 1 / 2\<rfloor> / 10 ^ d))"
| "toFixed d x = x"

section \<open>The price and liquidity gateway\<close>

text \<open>
  \<open>currentMidPrice\<close> and \<open>priceToBinIndex\<close> of the core package answer with a tagged result:
  \<open>{ok: true, value}\<close> or \<open>{ok: false, error, detail?}\<close>, the error one of five kinds.
\<close>

datatype DomainError = InvalidInput | NotFound | RateLimited | RpcError | SdkError

datatype 'a Result = Ok 'a | Failed DomainError "string option"

fun errorName :: "DomainError \<Rightarrow> string" where
  "errorName InvalidInput = ''InvalidInput''"
| "errorName NotFound = ''NotFound''"
| "errorName RateLimited = ''RateLimited''"
| "errorName RpcError = ''RpcError''"
| "errorName SdkError = ''SdkError''"

text \<open>
  The strategy service awaits the gateway; what a call answers may depend on everything
  that happened before. A gateway is therefore a pair of functions on a gateway state
  \<open>'g\<close>, and the service threads that state together with a log of the calls it has
  made, oldest first, each with the failure it met, if any.
\<close>

datatype gatewayCall = MidPriceCall string | PriceToBinCall string jsnum

type_synonym callLog = "(gatewayCall \<times> (DomainError \<times> string option) option) list"

fun failure :: "'a Result \<Rightarrow> (DomainError \<times> string option) option" where
  "failure (Ok v) = None"
| "failure (Failed e d) = Some (e, d)"

record 'g gateway =
  currentMidPrice :: "string \<Rightarrow> 'g \<Rightarrow> jsnum Result \<times> 'g"
  priceToBinIndex :: "string \<Rightarrow> jsnum \<Rightarrow> 'g \<Rightarrow> int Result \<times> 'g"

type_synonym 'g world = "'g \<times> callLog"

definition awaitMidPrice :: "'g gateway \<Rightarrow> string \<Rightarrow> 'g world \<Rightarrow> jsnum Result \<times> 'g world" where
  "awaitMidPrice gw pool w =
     (case currentMidPrice gw pool (fst w) of
        (r, g') \<Rightarrow> (r, (g', snd w @ [(MidPriceCall pool, failure r)])))"

definition awaitPriceToBin ::
  "'g gateway \<Rightarrow> string \<Rightarrow> jsnum \<Rightarrow> 'g world \<Rightarrow> int Result \<times> 'g world" where
  "awaitPriceToBin gw pool price w =
     (case priceToBinIndex gw pool price (fst w) of
        (r, g') \<Rightarrow> (r, (g', snd w @ [(PriceToBinCall pool price, failure r)])))"

section \<open>Problem replies of the strategy service\<close>

record ProblemDetail =
  ptype :: "string option"
  title :: string
  status :: nat
  detail :: "string option"
  code :: "string option"

definition defaultProblemType :: string where
  "defaultProblemType = ''https://datatracker.ietf.org/doc/html/rfc7807''"

text \<open>The body \<open>sendProblem\<close> sends: an empty or absent detail or code is left out.\<close>

record ProblemBody =
  body_type :: string
  body_title :: string
  body_status :: nat
  body_detail :: "string option"
  body_code :: "string option"

fun truthy :: "string option \<Rightarrow> string option" where
  "truthy None = None"
| "truthy (Some s) = (if s = [] then None else Some s)"

definition sendProblem :: "ProblemDetail \<Rightarrow> ProblemBody" where
  "sendProblem problem =
     \<lparr>body_type = (case ptype problem of None \<Rightarrow> defaultProblemType | Some ty \<Rightarrow> ty),
      body_title = title problem,
      body_status = status problem,
      body_detail = truthy (detail problem),
      body_code = truthy (code problem)\<rparr>"

definition buildProblem :: "nat \<Rightarrow> string \<Rightarrow> string option \<Rightarrow> string option \<Rightarrow> ProblemBody" where
  "buildProblem st ttl det cd =
     sendProblem \<lparr>ptype = Some defaultProblemType, title = ttl, status = st,
                  detail = det, code = cd\<rparr>"

fun statusByError :: "DomainError \<Rightarrow> nat" where
  "statusByError InvalidInput = 400"
| "statusByError NotFound = 404"
| "statusByError RateLimited = 429"
| "statusByError RpcError = 502"
| "statusByError SdkError = 502"

text \<open>
  \<open>mapResult\<close> hands back the value of a successful result; on a failed one it sends the
  problem on the reply and hands back \<open>undefined\<close>. The sent body is the \<open>Inl\<close> here.
\<close>

definition mapResult :: "'a Result \<Rightarrow> string \<Rightarrow> string option \<Rightarrow> ProblemBody + 'a" where
  "mapResult result ctx_title ctx_type =
     (case result of
        Ok v \<Rightarrow> Inr v
      | Failed e d \<Rightarrow>
          Inl (sendProblem
            \<lparr>ptype = Some (case ctx_type of None \<Rightarrow> defaultProblemType | Some ty \<Rightarrow> ty),
             title = ctx_title,
             status = statusByError e,
             detail = d,
             code = Some (errorName e)\<rparr>))"

section \<open>Band planning\<close>

text \<open>
  \<open>computeTargetBins\<close> asks for the bin of the mid price, of the lower and of the upper
  band price, in this order, and gives up at the first failed lookup: the problem has then
  been sent and the function returns \<open>undefined\<close> (\<open>Inl\<close> of the sent body).
\<close>

record TargetBins =
  binLower :: int
  binUpper :: int
  currentBin :: int

definition computeTargetBins ::
  "'g gateway \<Rightarrow> string \<Rightarrow> jsnum \<Rightarrow> jsnum \<Rightarrow> 'g world \<Rightarrow> (ProblemBody + TargetBins) \<times> 'g world" where
  "computeTargetBins gw pool midPrice bandBps w =
     (let ratio = js_div bandBps (Fin 10000);
          lowerPrice = js_mul midPrice (js_sub (Fin 1) ratio);
          upperPrice = js_mul midPrice (js_add (Fin 1) ratio)
      in case awaitPriceToBin gw pool midPrice w of (currentBinResult, w1) \<Rightarrow>
         (case mapResult currentBinResult ''Failed to determine active bin'' None of
            Inl sent \<Rightarrow> (Inl sent, w1)
          | Inr currentBin' \<Rightarrow>
         (case awaitPriceToBin gw pool lowerPrice w1 of (lowerResult, w2) \<Rightarrow>
         (case mapResult lowerResult ''Failed to compute lower band bin'' None of
            Inl sent \<Rightarrow> (Inl sent, w2)
          | Inr lowerBin \<Rightarrow>
         (case awaitPriceToBin gw pool upperPrice w2 of (upperResult, w3) \<Rightarrow>
         (case mapResult upperResult ''Failed to compute upper band bin'' None of
            Inl sent \<Rightarrow> (Inl sent, w3)
          | Inr upperBin \<Rightarrow>
              (Inr \<lparr>binLower = min lowerBin upperBin,
                    binUpper = max lowerBin upperBin,
                    currentBin = currentBin'\<rparr>, w3)))))))"

text \<open>
  The body of \<open>POST /rebalance/plan\<close> as JSON carries it: two strings and a number, which in
  JSON is finite. \<open>rebalanceBodySchema\<close> wants a wallet of 32 to 64 characters that is a
  Solana public key, a non-empty pool and an integer \<open>bandBps\<close> from 1 to 10000. Whether a
  string is a public key is decided by \<open>@solana/web3.js\<close> and the text of a schema error
  by \<open>zod\<close>; both are parameters.
\<close>

record RebalanceBody =
  req_wallet :: string
  req_pool :: string
  req_bandBps :: rat

record 'g service =
  gateway :: "'g gateway"
  isPublicKey :: "string \<Rightarrow> bool"
  zodMessage :: "RebalanceBody \<Rightarrow> string"

definition rebalanceBodySchema :: "(string \<Rightarrow> bool) \<Rightarrow> RebalanceBody \<Rightarrow> bool" where
  "rebalanceBodySchema isKey body =
     (32 \<le> length (req_wallet body) \<and> length (req_wallet body) \<le> 64 \<and> isKey (req_wallet body) \<and>
      1 \<le> length (req_pool body) \<and>
      of_int \<lfloor>req_bandBps body\<rfloor> = req_bandBps body \<and> 1 \<le> req_bandBps body \<and> req_bandBps body \<le> 10000)"

text \<open>The reply of the route: a problem, or the plan (its nested objects flattened).\<close>

record PlanResp =
  inBand :: bool
  target_binLower :: int
  target_binUpper :: int
  current_midPrice :: jsnum
  current_binIndex :: int

datatype reply = ProblemReply ProblemBody | PlanReply PlanResp

definition rebalancePlan :: "'g service \<Rightarrow> RebalanceBody \<Rightarrow> 'g world \<Rightarrow> reply \<times> 'g world" where
  "rebalancePlan svc body w =
     (if \<not> rebalanceBodySchema (isPublicKey svc) body then
        (ProblemReply (buildProblem 400 ''Invalid Request'' (Some (zodMessage svc body))
           (Some ''InvalidInput'')), w)
      else
        case awaitMidPrice (gateway svc) (req_pool body) w of (midPriceResult, w1) \<Rightarrow>
        (case mapResult midPriceResult ''Failed to fetch mid price'' None of
           Inl sent \<Rightarrow> (ProblemReply sent, w1)
         | Inr midPrice \<Rightarrow>
        (case computeTargetBins (gateway svc) (req_pool body) midPrice (Fin (req_bandBps body)) w1 of
           (Inl sent, w2) \<Rightarrow> (ProblemReply sent, w2)
         | (Inr band, w2) \<Rightarrow>
             (let inBand' = (currentBin band \<ge> binLower band \<and> currentBin band \<le> binUpper band)
              in (PlanReply \<lparr>inBand = inBand',
                              target_binLower = binLower band,
                              target_binUpper = binUpper band,
                              current_midPrice = midPrice,
                              current_binIndex = currentBin band\<rparr>, w2)))))"

section \<open>Bins of an advanced order\<close>

datatype AdvancedKind = limitBuy | limitSell | stopLoss

text \<open>
  \<open>Array.from(new Set(xs))\<close> keeps the first occurrence of every element, in order.
  \<open>sort((a, b) => a - b)\<close> is modelled by insertion with \<open>js_le\<close>: the list sorted here
  is either all finite, where every correct sort gives the same list, or has one element.
\<close>

fun uniqueFirst :: "'a list \<Rightarrow> 'a list" where
  "uniqueFirst [] = []"
| "uniqueFirst (x # xs) = x # uniqueFirst (filter (\<lambda>y. y \<noteq> x) xs)"

fun js_insert :: "jsnum \<Rightarrow> jsnum list \<Rightarrow> jsnum list" where
  "js_insert x [] = [x]"
| "js_insert x (y # ys) = (if js_le x y then x # y # ys else y # js_insert x ys)"

fun js_sort :: "jsnum list \<Rightarrow> jsnum list" where
  "js_sort [] = []"
| "js_sort (x # xs) = js_insert x (js_sort xs)"

definition buildAdvancedBins :: "AdvancedKind \<Rightarrow> jsnum \<Rightarrow> jsnum list" where
  "buildAdvancedBins kind baseIndex =
     (let coreBins =
            (if kind = limitSell
             then [baseIndex, js_add baseIndex (Fin 1), js_add baseIndex (Fin 2)]
             else [baseIndex, js_sub baseIndex (Fin 1), js_sub baseIndex (Fin 2)]);
          sanitized = map js_trunc (filter (\<lambda>bin. js_isFinite bin \<and> js_ge bin (Fin 0)) coreBins);
          unique = uniqueFirst sanitized;
          unique' = (if length unique = 0
                     then unique @ [js_max (Fin 0) (js_trunc baseIndex)] else unique)
      in js_sort unique')"

section \<open>The backtest of the analytics page\<close>

record CandleRow =
  row_t :: jsnum
  row_o :: jsnum
  row_h :: jsnum
  row_l :: jsnum
  row_c :: jsnum

record EquityPoint =
  point_t :: jsnum
  point_equity :: jsnum

record BacktestResult =
  equitySeries :: "EquityPoint list"
  exits :: nat
  totalFeesPct :: jsnum
  finalEquity :: jsnum

definition FEE_PER_EXIT :: jsnum where
  "FEE_PER_EXIT = Fin (2 / 10000)"

record Band =
  lower :: jsnum
  upper :: jsnum

definition toBand :: "jsnum \<Rightarrow> jsnum \<Rightarrow> Band" where
  "toBand ratio price =
     \<lparr>lower = js_mul price (js_sub (Fin 1) ratio), upper = js_mul price (js_add (Fin 1) ratio)\<rparr>"

text \<open>The variables that the loop of \<open>runBacktest\<close> updates.\<close>

record LoopState =
  st_equitySeries :: "EquityPoint list"
  st_equity :: jsnum
  st_exits :: nat
  st_lastExitTs :: jsnum
  st_band :: Band

definition canExit :: "jsnum \<Rightarrow> LoopState \<Rightarrow> CandleRow \<Rightarrow> bool" where
  "canExit cooldownSec s row =
     js_ge (row_t row) (js_add (st_lastExitTs s) (js_mul cooldownSec (Fin 1000)))"

definition hitUpper :: "LoopState \<Rightarrow> CandleRow \<Rightarrow> bool" where
  "hitUpper s row = js_gt (row_h row) (upper (st_band s))"

definition hitLower :: "LoopState \<Rightarrow> CandleRow \<Rightarrow> bool" where
  "hitLower s row = js_lt (row_l row) (lower (st_band s))"

text \<open>One round of the loop: a row with a non-finite field is passed over.\<close>

definition loopBody :: "jsnum \<Rightarrow> jsnum \<Rightarrow> LoopState \<Rightarrow> CandleRow \<Rightarrow> LoopState" where
  "loopBody ratio cooldownSec s row =
     (if \<not> js_isFinite (row_t row) \<or> \<not> js_isFinite (row_h row) \<or>
         \<not> js_isFinite (row_l row) \<or> \<not> js_isFinite (row_c row)
      then s
      else
        let s1 =
              (if canExit cooldownSec s row \<and> (hitUpper s row \<or> hitLower s row)
               then
                 let gain = js_mul (st_equity s) FEE_PER_EXIT
                 in s\<lparr>st_exits := st_exits s + 1,
                      st_lastExitTs := row_t row,
                      st_equity := js_add (st_equity s) gain,
                      st_band := toBand ratio (row_c row)\<rparr>
               else s)
        in s1\<lparr>st_equitySeries := st_equitySeries s1 @
                 [\<lparr>point_t = row_t row, point_equity = toFixed 6 (st_equity s1)\<rparr>]\<rparr>)"

definition initialState :: "jsnum \<Rightarrow> CandleRow list \<Rightarrow> LoopState" where
  "initialState ratio rows =
     \<lparr>st_equitySeries = [],
      st_equity = Fin 1,
      st_exits = 0,
      st_lastExitTs = NegInf,
      st_band = toBand ratio (case rows of [] \<Rightarrow> Fin 1 | row # _ \<Rightarrow> row_c row)\<rparr>"

text \<open>The state in which the loop leaves the variables.\<close>

definition loopEnd :: "CandleRow list \<Rightarrow> jsnum \<Rightarrow> jsnum \<Rightarrow> LoopState" where
  "loopEnd rows bandBps cooldownSec =
     (let ratio = js_div bandBps (Fin 10000)
      in foldl (loopBody ratio cooldownSec) (initialState ratio rows) rows)"

definition runBacktest :: "CandleRow list \<Rightarrow> jsnum \<Rightarrow> jsnum \<Rightarrow> BacktestResult" where
  "runBacktest rows bandBps cooldownSec =
     (let s = loopEnd rows bandBps cooldownSec;
          totalFeesPct' =
            (if js_gt (st_equity s) (Fin 0)
             then js_mul (js_sub (st_equity s) (Fin 1)) (Fin 100) else Fin 0)
      in \<lparr>equitySeries = st_equitySeries s,
          exits = st_exits s,
          totalFeesPct = toFixed 4 totalFeesPct',
          finalEquity = toFixed 6 (st_equity s)\<rparr>)"

section \<open>Reading the candles of an uploaded table\<close>

text \<open>
  A cell as the table parser hands it over with \<open>dynamicTyping\<close>: a number, a string, or
  something that is neither (null, a missing key). \<open>Number\<close> applied to a string is
  ECMAScript's; it is a parameter of the model. A string is the sequence of the bytes of
  its UTF-8 encoding. \<open>trim\<close> removes white space and line terminators at both ends:
  the code points 9 to 13 and 32, U+00A0, U+1680, U+2000 to U+200A, U+2028, U+2029,
  U+202F, U+205F, U+3000 and U+FEFF, listed here by their encodings. \<open>dropCodes\<close> removes
  encodings from the front for as long as one is there; its first argument bounds the
  number of removals and is given as the length of the string.
\<close>

datatype cell = NumberCell jsnum | StringCell string | OtherCell

definition whiteSpaceCodes :: "string list" where
  "whiteSpaceCodes =
     [[CHR 0x09],
      [CHR 0x0A],
      [CHR 0x0B],
      [CHR 0x0C],
      [CHR 0x0D],
      [CHR 0x20],
      [CHR 0xC2, CHR 0xA0],
      [CHR 0xE1, CHR 0x9A, CHR 0x80],
      [CHR 0xE2, CHR 0x80, CHR 0x80],
      [CHR 0xE2, CHR 0x80, CHR 0x81],
      [CHR 0xE2, CHR 0x80, CHR 0x82],
      [CHR 0xE2, CHR 0x80, CHR 0x83],
      [CHR 0xE2, CHR 0x80, CHR 0x84],
      [CHR 0xE2, CHR 0x80, CHR 0x85],
      [CHR 0xE2, CHR 0x80, CHR 0x86],
      [CHR 0xE2, CHR 0x80, CHR 0x87],
      [CHR 0xE2, CHR 0x80, CHR 0x88],
      [CHR 0xE2, CHR 0x80, CHR 0x89],
      [CHR 0xE2, CHR 0x80, CHR 0x8A],
      [CHR 0xE2, CHR 0x80, CHR 0xA8],
      [CHR 0xE2, CHR 0x80, CHR 0xA9],
      [CHR 0xE2, CHR 0x80, CHR 0xAF],
      [CHR 0xE2, CHR 0x81, CHR 0x9F],
      [CHR 0xE3, CHR 0x80, CHR 0x80],
      [CHR 0xEF, CHR 0xBB, CHR 0xBF]]"

primrec dropCodes :: "nat \<Rightarrow> string list \<Rightarrow> string \<Rightarrow> string" where
  "dropCodes 0 codes str = str"
| "dropCodes (Suc n) codes str =
     (case List.find (\<lambda>code'. take (length code') str = code') codes of
        None \<Rightarrow> str
      | Some code' \<Rightarrow> dropCodes n codes (drop (length code') str))"

definition trimStart :: "string \<Rightarrow> string" where
  "trimStart str = dropCodes (length str) whiteSpaceCodes str"

definition trimEnd :: "string \<Rightarrow> string" where
  "trimEnd str = rev (dropCodes (length str) (map rev whiteSpaceCodes) (rev str))"

definition trim :: "string \<Rightarrow> string" where
  "trim str = trimEnd (trimStart str)"

fun toNumber :: "(string \<Rightarrow> jsnum) \<Rightarrow> cell \<Rightarrow> jsnum option" where
  "toNumber Number (NumberCell v) = (if js_isFinite v then Some v else None)"
| "toNumber Number (StringCell v) =
     (if length (trim v) > 0
      then (let numeric = Number v in if js_isFinite numeric then Some numeric else None)
      else None)"
| "toNumber Number OtherCell = None"

definition toMillis :: "jsnum \<Rightarrow> jsnum" where
  "toMillis rawTimestamp =
     (if js_gt rawTimestamp (Fin 1000000000000) then rawTimestamp
      else js_mul rawTimestamp (Fin 1000))"

record CsvRow =
  timestamp :: cell
  "open" :: cell
  high :: cell
  low :: cell
  close :: cell

text \<open>
  What the parser reports: its errors (their messages), the names of the columns
  (\<open>meta.fields\<close>, absent or a list) and the rows, where an entry may be no object at all.
\<close>

record ParseResult =
  errors :: "string list"
  meta_fields :: "string list option"
  data :: "CsvRow option list"

definition REQUIRED_HEADERS :: "string list" where
  "REQUIRED_HEADERS = [''timestamp'', ''open'', ''high'', ''low'', ''close'']"

text \<open>
  The toast shown. Every message of a rejected upload starts with \<open>Malformed CSV:\<close>; the
  constructor says which message it is and carries what the message interpolates: the
  parser's message, the missing columns, the row number.
\<close>

datatype toast =
    ParseError string
  | MissingColumns "string list"
  | EmptyRow nat
  | NumericValuesRequired nat
  | NoValidRows
  | Loaded nat string

text \<open>The part of the page's state that the upload sets.\<close>

record UploadState =
  backtestRows :: "CandleRow list"
  csvName :: string
  shown :: toast

definition rejected :: "toast \<Rightarrow> UploadState" where
  "rejected msg = \<lparr>backtestRows = [], csvName = [], shown = msg\<rparr>"

text \<open>
  The row loop, from \<open>index\<close> on with the candles \<open>parsed\<close> so far: \<open>Inl\<close> is the toast of
  the row at which it returns early.
\<close>

fun parseRows ::
  "(string \<Rightarrow> jsnum) \<Rightarrow> nat \<Rightarrow> CandleRow list \<Rightarrow> CsvRow option list \<Rightarrow> toast + CandleRow list" where
  "parseRows Number index parsed [] = Inr parsed"
| "parseRows Number index parsed (None # rest) = Inl (EmptyRow (index + 2))"
| "parseRows Number index parsed (Some row # rest) =
     (case (toNumber Number (timestamp row), toNumber Number (open row),
            toNumber Number (high row), toNumber Number (low row),
            toNumber Number (close row)) of
        (Some ts, Some open', Some high', Some low', Some close') \<Rightarrow>
          parseRows Number (index + 1)
            (parsed @ [\<lparr>row_t = toMillis ts, row_o = open', row_h = high',
                        row_l = low', row_c = close'\<rparr>]) rest
      | _ \<Rightarrow> Inl (NumericValuesRequired (index + 2)))"

definition missingHeaders :: "ParseResult \<Rightarrow> string list" where
  "missingHeaders results =
     (let fields' = (case meta_fields results of None \<Rightarrow> [] | Some fs \<Rightarrow> fs)
      in filter (\<lambda>header. header \<notin> set fields') REQUIRED_HEADERS)"

definition handleCsvUpload :: "(string \<Rightarrow> jsnum) \<Rightarrow> string \<Rightarrow> ParseResult \<Rightarrow> UploadState" where
  "handleCsvUpload Number fileName results =
     (case errors results of
        parseError # _ \<Rightarrow> rejected (ParseError parseError)
      | [] \<Rightarrow>
        if length (missingHeaders results) > 0
        then rejected (MissingColumns (missingHeaders results))
        else
          case parseRows Number 0 [] (data results) of
            Inl msg \<Rightarrow> rejected msg
          | Inr parsed \<Rightarrow>
              if length parsed = 0 then rejected NoValidRows
              else \<lparr>backtestRows = parsed, csvName = fileName,
                    shown = Loaded (length parsed) fileName\<rparr>)"

section \<open>Rounding to binary64\<close>

text \<open>
  The arithmetic above is exact on finite numbers. Where the rounding of the program's
  binary64 arithmetic decides a property, every result is passed through \<open>binary64\<close>: the
  nearest binary64 number, the one with the even significand of two equally near ones,
  with 53 significant bits down to the exponent \<open>-1022\<close>, a fixed spacing of \<open>2^-1074\<close>
  below (the subnormal numbers), and an infinity once the rounded magnitude reaches
  \<open>2^1024\<close>. The number is scaled by \<open>2^1074\<close>, so that the spacing is a power of two that
  is at least 1; \<open>bitlen\<close> is the number of bits of a positive integer.
\<close>

definition roundHalfEven :: "rat \<Rightarrow> int" where
  "roundHalfEven q =
     (let f = \<lfloor>q\<rfloor>; r = q - of_int f
      in if r < 1 / 2 then f else if 1 / 2 < r then f + 1 else if even f then f else f + 1)"

definition round64 :: "rat \<Rightarrow> jsnum" where
  "round64 x =
     (let y = x * 2 ^ 1074;
          k = nat (bitlen \<lfloor>y\<rfloor> - 53);
          v = of_int (roundHalfEven (y / 2 ^ k)) * 2 ^ k / 2 ^ 1074
      in if 2 ^ 1024 \<le> v then PosInf else Fin v)"

fun binary64 :: "jsnum \<Rightarrow> jsnum" where
  "binary64 (Fin x) = (if x < 0 then js_neg (round64 (- x)) else round64 x)"
| "binary64 x = x"

section \<open>The backtest with rounded arithmetic\<close>

text \<open>
  \<open>runBacktest\<close> once more, with every arithmetic result, the constant \<open>FEE_PER_EXIT\<close> and
  every number read back from \<open>toFixed\<close> passed through a rounding \<open>rnd\<close>. With the identity
  for \<open>rnd\<close> this is the exact model above; with \<open>binary64\<close> it is the program's arithmetic.
  \<open>compoundR\<close> is the update of the equity at an exit: \<open>gain = equity * FEE_PER_EXIT\<close>,
  then \<open>equity += gain\<close>.
\<close>

definition toBandR :: "(jsnum \<Rightarrow> jsnum) \<Rightarrow> jsnum \<Rightarrow> jsnum \<Rightarrow> Band" where
  "toBandR rnd ratio price =
     \<lparr>lower = rnd (js_mul price (rnd (js_sub (Fin 1) ratio))),
      upper = rnd (js_mul price (rnd (js_add (Fin 1) ratio)))\<rparr>"

definition canExitR :: "(jsnum \<Rightarrow> jsnum) \<Rightarrow> jsnum \<Rightarrow> LoopState \<Rightarrow> CandleRow \<Rightarrow> bool" where
  "canExitR rnd cooldownSec s row =
     js_ge (row_t row) (rnd (js_add (st_lastExitTs s) (rnd (js_mul cooldownSec (Fin 1000)))))"

definition compoundR :: "(jsnum \<Rightarrow> jsnum) \<Rightarrow> jsnum \<Rightarrow> jsnum" where
  "compoundR rnd equity' =
     (let gain = rnd (js_mul equity' (rnd FEE_PER_EXIT))
      in rnd (js_add equity' gain))"

definition loopBodyR ::
  "(jsnum \<Rightarrow> jsnum) \<Rightarrow> jsnum \<Rightarrow> jsnum \<Rightarrow> LoopState \<Rightarrow> CandleRow \<Rightarrow> LoopState" where
  "loopBodyR rnd ratio cooldownSec s row =
     (if \<not> js_isFinite (row_t row) \<or> \<not> js_isFinite (row_h row) \<or>
         \<not> js_isFinite (row_l row) \<or> \<not> js_isFinite (row_c row)
      then s
      else
        let s1 =
              (if canExitR rnd cooldownSec s row \<and> (hitUpper s row \<or> hitLower s row)
               then s\<lparr>st_exits := st_exits s + 1,
                      st_lastExitTs := row_t row,
                      st_equity := compoundR rnd (st_equity s),
                      st_band := toBandR rnd ratio (row_c row)\<rparr>
               else s)
        in s1\<lparr>st_equitySeries := st_equitySeries s1 @
                 [\<lparr>point_t = row_t row, point_equity = rnd (toFixed 6 (st_equity s1))\<rparr>]\<rparr>)"

definition initialStateR :: "(jsnum \<Rightarrow> jsnum) \<Rightarrow> jsnum \<Rightarrow> CandleRow list \<Rightarrow> LoopState" where
  "initialStateR rnd ratio rows =
     \<lparr>st_equitySeries = [],
      st_equity = Fin 1,
      st_exits = 0,
      st_lastExitTs = NegInf,
      st_band = toBandR rnd ratio (case rows of [] \<Rightarrow> Fin 1 | row # _ \<Rightarrow> row_c row)\<rparr>"

definition loopEndR :: "(jsnum \<Rightarrow> jsnum) \<Rightarrow> CandleRow list \<Rightarrow> jsnum \<Rightarrow> jsnum \<Rightarrow> LoopState" where
  "loopEndR rnd rows bandBps cooldownSec =
     (let ratio = rnd (js_div bandBps (Fin 10000))
      in foldl (loopBodyR rnd ratio cooldownSec) (initialStateR rnd ratio rows) rows)"

definition runBacktestR ::
  "(jsnum \<Rightarrow> jsnum) \<Rightarrow> CandleRow list \<Rightarrow> jsnum \<Rightarrow> jsnum \<Rightarrow> BacktestResult" where
  "runBacktestR rnd rows bandBps cooldownSec =
     (let s = loopEndR rnd rows bandBps cooldownSec;
          totalFeesPct' =
            (if js_gt (st_equity s) (Fin 0)
             then rnd (js_mul (rnd (js_sub (st_equity s) (Fin 1))) (Fin 100)) else Fin 0)
      in \<lparr>equitySeries = st_equitySeries s,
          exits = st_exits s,
          totalFeesPct = rnd (toFixed 4 totalFeesPct'),
          finalEquity = rnd (toFixed 6 (st_equity s))\<rparr>)"

section \<open>Notions for the properties of the backtest\<close>

text \<open>
  A row that the loop does not pass over, and the condition under which the loop counts
  an exit at a row.
\<close>

definition finiteRow :: "CandleRow \<Rightarrow> bool" where
  "finiteRow row = (js_isFinite (row_t row) \<and> js_isFinite (row_h row) \<and>
     js_isFinite (row_l row) \<and> js_isFinite (row_c row))"

definition exitsAt :: "jsnum \<Rightarrow> LoopState \<Rightarrow> CandleRow \<Rightarrow> bool" where
  "exitsAt cooldownSec s row =
     (finiteRow row \<and> canExit cooldownSec s row \<and> (hitUpper s row \<or> hitLower s row))"

text \<open>
  The factor by which one exit multiplies the equity, and the invariant of the loop: the
  equity is that factor to the power of the exits, every recorded point is the rounded
  equity after some number of exits not above the present one, and the recorded equities
  ascend.
\<close>

definition growth :: rat where
  "growth = 1 + 2 / 10000"

definition compounded :: "LoopState \<Rightarrow> bool" where
  "compounded s =
     (st_equity s = Fin (growth ^ st_exits s) \<and>
      (\<forall>p \<in> set (st_equitySeries s).
         \<exists>k \<le> st_exits s. point_equity p = toFixed 6 (Fin (growth ^ k))) \<and>
      sorted_wrt js_le (map point_equity (st_equitySeries s)))"

section \<open>Notions for the properties of the upload\<close>

text \<open>
  A row at which the row loop gives up: no object, or one of the five required cells is
  not a finite number.
\<close>

fun badRow :: "(string \<Rightarrow> jsnum) \<Rightarrow> CsvRow option \<Rightarrow> bool" where
  "badRow Number None = True"
| "badRow Number (Some row) =
     (toNumber Number (timestamp row) = None \<or> toNumber Number (open row) = None \<or>
      toNumber Number (high row) = None \<or> toNumber Number (low row) = None \<or>
      toNumber Number (close row) = None)"

fun rowToast :: "CsvRow option \<Rightarrow> nat \<Rightarrow> toast" where
  "rowToast None n = EmptyRow n"
| "rowToast (Some row) n = NumericValuesRequired n"

section \<open>Sample gateways and sample candles\<close>

text \<open>
  Gateways on which the theorems below are tried. The first answers in the manner of the
  core's mock mode: a fixed mid price of 1.2345 and, for a positive finite price, the bin
  \<open>Math.round(price * 100)\<close>. The second has the opposite orientation: a higher price
  lies in a lower bin. The third counts its bin lookups in its state and fails the
  second one.
\<close>

fun roundedBin :: "jsnum \<Rightarrow> int Result" where
  "roundedBin (Fin x) =
     (if 0 < x then Ok \<lfloor>x * 100 + 1 / 2\<rfloor> else Failed InvalidInput (Some ''targetPrice: Number must be greater than 0''))"
| "roundedBin x = Failed InvalidInput (Some ''targetPrice: Expected number'')"

fun negated :: "int Result \<Rightarrow> int Result" where
  "negated (Ok v) = Ok (- v)"
| "negated (Failed e d) = Failed e d"

definition sampleGateway :: "unit gateway" where
  "sampleGateway =
     \<lparr>currentMidPrice = (\<lambda>pool g. (Ok (Fin (12345 / 10000)), g)),
      priceToBinIndex = (\<lambda>pool price g. (roundedBin price, g))\<rparr>"

definition invertedGateway :: "unit gateway" where
  "invertedGateway =
     \<lparr>currentMidPrice = (\<lambda>pool g. (Ok (Fin (12345 / 10000)), g)),
      priceToBinIndex = (\<lambda>pool price g. (negated (roundedBin price), g))\<rparr>"

definition flakyGateway :: "nat gateway" where
  "flakyGateway =
     \<lparr>currentMidPrice = (\<lambda>pool g. (Ok (Fin (12345 / 10000)), g)),
      priceToBinIndex = (\<lambda>pool price g.
         (if g = 1 then Failed RpcError (Some ''fetch failed'') else roundedBin price, g + 1))\<rparr>"

definition sampleService :: "'g gateway \<Rightarrow> 'g service" where
  "sampleService gw =
     \<lparr>gateway = gw, isPublicKey = (\<lambda>key. True), zodMessage = (\<lambda>body. ''Invalid input'')\<rparr>"

definition sampleBody :: RebalanceBody where
  "sampleBody =
     \<lparr>req_wallet = ''11111111111111111111111111111111'',
      req_pool = ''MOCK_POOL_SOL_USDC'',
      req_bandBps = 100\<rparr>"

text \<open>A candle with finite fields, its open equal to its close.\<close>

definition candle :: "rat \<Rightarrow> rat \<Rightarrow> rat \<Rightarrow> rat \<Rightarrow> CandleRow" where
  "candle t' h' l' c' =
     \<lparr>row_t = Fin t', row_o = Fin c', row_h = Fin h', row_l = Fin l', row_c = Fin c'\<rparr>"

text \<open>
  An uploaded table of three rows, the last with a close that is no number, and a
  \<open>Number\<close> that finds no string numeric (with \<open>dynamicTyping\<close> the parser has turned the
  numeric cells into numbers already).
\<close>

definition sampleNumber :: "string \<Rightarrow> jsnum" where
  "sampleNumber str = NaN"

definition numberRow :: "rat \<Rightarrow> rat \<Rightarrow> rat \<Rightarrow> rat \<Rightarrow> rat \<Rightarrow> CsvRow" where
  "numberRow ts op' hi lo cl =
     \<lparr>timestamp = NumberCell (Fin ts), open = NumberCell (Fin op'), high = NumberCell (Fin hi),
      low = NumberCell (Fin lo), close = NumberCell (Fin cl)\<rparr>"

definition sampleTable :: ParseResult where
  "sampleTable =
     \<lparr>errors = [],
      meta_fields = Some [''timestamp'', ''open'', ''high'', ''low'', ''close'', ''volume''],
      data = [Some (numberRow 1700000000 1 2 1 1),
              Some (numberRow 1700000060 1 2 1 1),
              Some ((numberRow 1700000120 1 2 1 1)\<lparr>close := StringCell ''n/a''\<rparr>)]\<rparr>"

text \<open>
  A table whose only row is one cell short: the parser reports the mismatch and leaves
  the close of the row undefined.
\<close>

definition shortTable :: ParseResult where
  "shortTable =
     \<lparr>errors = [''Too few fields: expected 5 fields but parsed 4''],
      meta_fields = Some [''timestamp'', ''open'', ''high'', ''low'', ''close''],
      data = [Some ((numberRow 1700000000 1 2 1 1)\<lparr>close := OtherCell\<rparr>)]\<rparr>"

section \<open>Properties of band planning\<close>

lemma errorName_nonempty: "errorName e \<noteq> []"
  by (cases e) simp_all

lemma mapResult_Failed:
  "mapResult (Failed e d) ttl None =
     Inl \<lparr>body_type = defaultProblemType, body_title = ttl, body_status = statusByError e,
          body_detail = truthy d, body_code = Some (errorName e)\<rparr>"
  by (simp add: mapResult_def sendProblem_def errorName_nonempty)

lemma mapResult_Ok: "mapResult (Ok v) ttl ty = Inr v"
  by (simp add: mapResult_def)

text \<open>When the three lookups succeed, \<open>computeTargetBins\<close> returns a target.\<close>

lemma computeTargetBins_succeeds:
  assumes "priceToBinIndex gw p midPrice g = (Ok cur, g1)"
    and "priceToBinIndex gw p (js_mul midPrice (js_sub (Fin 1) (js_div bps (Fin 10000)))) g1 = (Ok lo, g2)"
    and "priceToBinIndex gw p (js_mul midPrice (js_add (Fin 1) (js_div bps (Fin 10000)))) g2 = (Ok hi, g3)"
  shows "fst (computeTargetBins gw p midPrice bps (g, lg)) =
           Inr \<lparr>binLower = min lo hi, binUpper = max lo hi, currentBin = cur\<rparr>"
  using assms
  by (simp add: computeTargetBins_def Let_def awaitPriceToBin_def mapResult_Ok)

text \<open>
  C1. Whenever \<open>computeTargetBins\<close> returns a target, which it does exactly when its three
  \<open>priceToBinIndex\<close> lookups succeed, the target has \<open>binLower \<le> binUpper\<close>. This holds for
  every gateway, whatever bins it assigns to prices, and for every mid price and band
  width, hence for a positive mid price and a band of 1 to 10000 basis points.
\<close>

theorem computeTargetBins_binLower_le_binUpper:
  assumes "fst (computeTargetBins gw p midPrice bps w) = Inr band"
  shows "binLower band \<le> binUpper band"
  using assms
  by (auto simp: computeTargetBins_def Let_def split: prod.splits sum.splits)

theorem computeTargetBins_binLower_le_binUpper_witness:
  "fst (computeTargetBins invertedGateway ''MOCK_POOL_SOL_USDC'' (Fin (12345 / 10000)) (Fin 100) ((), []))
     = Inr \<lparr>binLower = - 125, binUpper = - 122, currentBin = - 123\<rparr> \<and>
   binLower \<lparr>binLower = - 125, binUpper = - 122, currentBin = - 123\<rparr>
     \<le> binUpper \<lparr>binLower = - 125, binUpper = - 122, currentBin = - 123\<rparr>"
proof -
  have run: "fst (computeTargetBins invertedGateway ''MOCK_POOL_SOL_USDC'' (Fin (12345 / 10000)) (Fin 100) ((), []))
     = Inr \<lparr>binLower = - 125, binUpper = - 122, currentBin = - 123\<rparr>"
    by code_simp
  from computeTargetBins_binLower_le_binUpper [OF run] run show ?thesis
    by blast
qed

text \<open>
  C2. In every plan that \<open>POST /rebalance/plan\<close> sends, \<open>inBand\<close> is true if and only if
  the current bin index lies between \<open>binLower\<close> and \<open>binUpper\<close>, both included; so it is
  true when the current bin index equals \<open>binLower\<close> and when it equals \<open>binUpper\<close>.
\<close>

theorem rebalancePlan_inBand:
  assumes "fst (rebalancePlan svc body w) = PlanReply resp"
  shows "(inBand resp \<longleftrightarrow>
            target_binLower resp \<le> current_binIndex resp \<and>
            current_binIndex resp \<le> target_binUpper resp) \<and>
         (current_binIndex resp = target_binLower resp \<longrightarrow> inBand resp) \<and>
         (current_binIndex resp = target_binUpper resp \<longrightarrow> inBand resp)"
  using assms
  by (auto simp: rebalancePlan_def computeTargetBins_def Let_def
           split: prod.splits sum.splits if_splits)

theorem rebalancePlan_inBand_witness:
  "fst (rebalancePlan (sampleService sampleGateway) (sampleBody\<lparr>req_bandBps := 1\<rparr>) ((), []))
     = PlanReply \<lparr>inBand = True, target_binLower = 123, target_binUpper = 123,
                  current_midPrice = Fin (12345 / 10000), current_binIndex = 123\<rparr> \<and>
   inBand \<lparr>inBand = True, target_binLower = 123, target_binUpper = 123,
            current_midPrice = Fin (12345 / 10000), current_binIndex = 123\<rparr>"
proof -
  have run: "fst (rebalancePlan (sampleService sampleGateway) (sampleBody\<lparr>req_bandBps := 1\<rparr>) ((), []))
     = PlanReply \<lparr>inBand = True, target_binLower = 123, target_binUpper = 123,
                  current_midPrice = Fin (12345 / 10000), current_binIndex = 123\<rparr>"
    by code_simp
  from rebalancePlan_inBand [OF run] run show ?thesis
    by simp
qed

text \<open>
  A failure in the log of \<open>computeTargetBins\<close> is the last entry of the log, and the problem
  sent carries its kind, the status of that kind and its detail.
\<close>

lemma computeTargetBins_failure:
  assumes "computeTargetBins gw p midPrice bps (g, lg) = (res, (g', lg'))"
    and "\<forall>entry \<in> set lg. snd entry = None"
    and "(c, Some (e, d)) \<in> set lg'"
  shows "\<exists>pb. res = Inl pb \<and> body_code pb = Some (errorName e) \<and>
           body_status pb = statusByError e \<and> body_detail pb = truthy d \<and>
           last lg' = (c, Some (e, d)) \<and> (\<forall>entry \<in> set (butlast lg'). snd entry = None)"
proof -
  from assms(2) have notin: "(c, Some (e, d)) \<notin> set lg" by force
  let ?lo = "js_mul midPrice (js_sub (Fin 1) (js_div bps (Fin 10000)))"
  let ?hi = "js_mul midPrice (js_add (Fin 1) (js_div bps (Fin 10000)))"
  obtain r1 g1 where c1: "priceToBinIndex gw p midPrice g = (r1, g1)" by force
  obtain r2 g2 where c2: "priceToBinIndex gw p ?lo g1 = (r2, g2)" by force
  obtain r3 g3 where c3: "priceToBinIndex gw p ?hi g2 = (r3, g3)" by force
  note defs = computeTargetBins_def Let_def awaitPriceToBin_def butlast_append
    mapResult_Failed mapResult_Ok
  show ?thesis
  proof (cases r1)
    case (Failed e1 d1)
    with assms notin c1 show ?thesis
      by (auto simp: defs)
  next
    case o1: (Ok v1)
    show ?thesis
    proof (cases r2)
      case (Failed e2 d2)
      with assms notin c1 c2 o1 show ?thesis
        by (auto simp: defs)
    next
      case o2: (Ok v2)
      show ?thesis
      proof (cases r3)
        case (Failed e3 d3)
        with assms notin c1 c2 c3 o1 o2 show ?thesis
          by (auto simp: defs)
      next
        case (Ok v3)
        with assms notin c1 c2 c3 o1 o2 show ?thesis
          by (auto simp: defs)
      qed
    qed
  qed
qed

text \<open>
  C9, as the code has it. If a gateway call of \<open>POST /rebalance/plan\<close> fails, be it the
  price fetch or a price-to-bin lookup, the route replies with a problem and no plan. The
  problem's code is the gateway's own error kind (InvalidInput, NotFound, RateLimited,
  RpcError or SdkError), its status is the status of that kind and its detail is the
  gateway's detail when that is not empty. The failed call is the last gateway call of the
  request: nothing is retried and no later lookup is made.
\<close>

theorem rebalancePlan_gateway_failure:
  assumes "rebalancePlan svc body (g, []) = (r, (g', lg))"
    and "(c, Some (e, d)) \<in> set lg"
  shows "\<exists>pb. r = ProblemReply pb \<and> body_code pb = Some (errorName e) \<and>
           body_status pb = statusByError e \<and> body_detail pb = truthy d \<and>
           last lg = (c, Some (e, d)) \<and> (\<forall>entry \<in> set (butlast lg). snd entry = None)"
proof (cases "rebalanceBodySchema (isPublicKey svc) body")
  case False
  with assms show ?thesis by (simp add: rebalancePlan_def)
next
  case valid: True
  obtain r0 g0 where c0: "currentMidPrice (gateway svc) (req_pool body) g = (r0, g0)" by force
  show ?thesis
  proof (cases r0)
    case (Failed e0 d0)
    with assms valid c0 show ?thesis
      by (auto simp: rebalancePlan_def awaitMidPrice_def butlast_append mapResult_Failed)
  next
    case (Ok mid)
    obtain res w2 where ct:
      "computeTargetBins (gateway svc) (req_pool body) mid (Fin (req_bandBps body))
         (g0, [(MidPriceCall (req_pool body), None)]) = (res, w2)"
      by (metis prod.exhaust)
    obtain g2 lg2 where w2: "w2 = (g2, lg2)" by (metis prod.exhaust)
    from assms(1) valid c0 Ok ct w2 have lg: "lg = lg2"
      by (auto simp: rebalancePlan_def awaitMidPrice_def mapResult_Ok split: sum.splits)
    have clean: "\<forall>entry \<in> set [(MidPriceCall (req_pool body),
        None :: (DomainError \<times> string option) option)]. snd entry = None"
      by simp
    from computeTargetBins_failure [OF ct [unfolded w2] clean] assms(2) lg
    obtain pb where pb: "res = Inl pb" "body_code pb = Some (errorName e)"
        "body_status pb = statusByError e" "body_detail pb = truthy d"
        "last lg = (c, Some (e, d))" "\<forall>entry \<in> set (butlast lg). snd entry = None"
      by blast
    from assms(1) valid c0 Ok ct w2 pb(1) have "r = ProblemReply pb"
      by (auto simp: rebalancePlan_def awaitMidPrice_def mapResult_Ok)
    with pb show ?thesis by blast
  qed
qed

theorem rebalancePlan_gateway_failure_witness:
  "rebalancePlan (sampleService flakyGateway) sampleBody (0, []) =
     (ProblemReply
        \<lparr>body_type = ''https://datatracker.ietf.org/doc/html/rfc7807'',
         body_title = ''Failed to compute lower band bin'', body_status = 502,
         body_detail = Some ''fetch failed'', body_code = Some ''RpcError''\<rparr>,
      (2, [(MidPriceCall ''MOCK_POOL_SOL_USDC'', None),
           (PriceToBinCall ''MOCK_POOL_SOL_USDC'' (Fin (2469 / 2000)), None),
           (PriceToBinCall ''MOCK_POOL_SOL_USDC'' (Fin (244431 / 200000)),
              Some (RpcError, Some ''fetch failed''))])) \<and>
   (\<exists>pb. ProblemReply
        \<lparr>body_type = ''https://datatracker.ietf.org/doc/html/rfc7807'',
         body_title = ''Failed to compute lower band bin'', body_status = 502,
         body_detail = Some ''fetch failed'', body_code = Some ''RpcError''\<rparr> = ProblemReply pb \<and>
      body_code pb = Some (errorName RpcError) \<and> body_status pb = statusByError RpcError)"
proof -
  have run: "rebalancePlan (sampleService flakyGateway) sampleBody (0, []) =
     (ProblemReply
        \<lparr>body_type = ''https://datatracker.ietf.org/doc/html/rfc7807'',
         body_title = ''Failed to compute lower band bin'', body_status = 502,
         body_detail = Some ''fetch failed'', body_code = Some ''RpcError''\<rparr>,
      (2, [(MidPriceCall ''MOCK_POOL_SOL_USDC'', None),
           (PriceToBinCall ''MOCK_POOL_SOL_USDC'' (Fin (2469 / 2000)), None),
           (PriceToBinCall ''MOCK_POOL_SOL_USDC'' (Fin (244431 / 200000)),
              Some (RpcError, Some ''fetch failed''))]))"
    by code_simp
  have logged: "(PriceToBinCall ''MOCK_POOL_SOL_USDC'' (Fin (244431 / 200000)),
       Some (RpcError, Some ''fetch failed'')) \<in>
     set [(MidPriceCall ''MOCK_POOL_SOL_USDC'', None),
          (PriceToBinCall ''MOCK_POOL_SOL_USDC'' (Fin (2469 / 2000)), None),
          (PriceToBinCall ''MOCK_POOL_SOL_USDC'' (Fin (244431 / 200000)),
             Some (RpcError, Some ''fetch failed''))]"
    by simp
  from rebalancePlan_gateway_failure [OF run logged] run show ?thesis
    by blast
qed

text \<open>
  The claim as written fails: the problem sent for a failed lookup has the gateway's
  kind, here \<open>RpcError\<close>, as its code, and not \<open>UpstreamUnavailable\<close>, a kind that the
  service does not have.
\<close>

theorem rebalancePlan_UpstreamUnavailable_counterexample:
  "fst (rebalancePlan (sampleService flakyGateway) sampleBody (0, [])) =
     ProblemReply
        \<lparr>body_type = ''https://datatracker.ietf.org/doc/html/rfc7807'',
         body_title = ''Failed to compute lower band bin'', body_status = 502,
         body_detail = Some ''fetch failed'', body_code = Some ''RpcError''\<rparr> \<and>
   Some ''RpcError'' \<noteq> Some ''UpstreamUnavailable''"
proof -
  have "fst (rebalancePlan (sampleService flakyGateway) sampleBody (0, [])) =
     ProblemReply
        \<lparr>body_type = ''https://datatracker.ietf.org/doc/html/rfc7807'',
         body_title = ''Failed to compute lower band bin'', body_status = 502,
         body_detail = Some ''fetch failed'', body_code = Some ''RpcError''\<rparr>"
    by code_simp
  then show ?thesis by simp
qed

section \<open>Properties of the bins of an advanced order\<close>

lemma js_ge_Fin: "js_ge (Fin a) (Fin b) = (b \<le> a)"
  by (auto simp: js_ge_def)

text \<open>What \<open>buildAdvancedBins\<close> returns for an integer base index, case by case.\<close>

lemma buildAdvancedBins_limitSell:
  "buildAdvancedBins limitSell (Fin (of_int i)) =
     map (\<lambda>k. Fin (of_int k))
       (if 0 \<le> i then [i, i + 1, i + 2] else if i = - 1 then [0, 1] else [0])"
proof -
  consider "0 \<le> i" | "i = - 1" | "i = - 2" | "i < - 2" by linarith
  then show ?thesis
    by cases (simp_all add: buildAdvancedBins_def Let_def js_ge_Fin js_sub_def)
qed

lemma buildAdvancedBins_below:
  assumes "kind \<noteq> limitSell"
  shows "buildAdvancedBins kind (Fin (of_int i)) =
     map (\<lambda>k. Fin (of_int k))
       (if 2 \<le> i then [i - 2, i - 1, i] else if i = 1 then [0, 1] else [0])"
proof -
  consider "2 \<le> i" | "i = 1" | "i = 0" | "i < 0" by linarith
  then show ?thesis
    using assms
    by cases (simp_all add: buildAdvancedBins_def Let_def js_ge_Fin js_sub_def)
qed

text \<open>
  C3. For each of the three kinds and every integer base index, negative ones included,
  \<open>buildAdvancedBins\<close> returns the numbers of a list of integer bins that is not empty, has
  no duplicates, is sorted in ascending order and has no negative element. When all three
  candidate bins are negative, so that filtering leaves nothing, the list is the single
  bin \<open>max(0, baseIndex)\<close>.
\<close>

theorem buildAdvancedBins_bins:
  "\<exists>bs. buildAdvancedBins kind (Fin (of_int i)) = map (\<lambda>k. Fin (of_int k)) bs \<and>
      bs \<noteq> [] \<and> distinct bs \<and> sorted bs \<and> (\<forall>b \<in> set bs. 0 \<le> b) \<and>
      ((\<forall>b \<in> set (if kind = limitSell then [i, i + 1, i + 2] else [i, i - 1, i - 2]). b < 0)
         \<longrightarrow> bs = [max 0 i])"
proof (cases "kind = limitSell")
  case True
  then show ?thesis
    using buildAdvancedBins_limitSell [of i]
    by (intro exI [of _ "if 0 \<le> i then [i, i + 1, i + 2] else if i = - 1 then [0, 1] else [0]"])
      auto
next
  case False
  then show ?thesis
    using buildAdvancedBins_below [of kind i]
    by (intro exI [of _ "if 2 \<le> i then [i - 2, i - 1, i] else if i = 1 then [0, 1] else [0]"])
      auto
qed

theorem buildAdvancedBins_bins_witness:
  "buildAdvancedBins stopLoss (Fin (of_int (- 4))) = [Fin 0]"
  using buildAdvancedBins_bins [of stopLoss "- 4"] by auto

section \<open>Properties of the backtest\<close>

lemma toFixed_mono:
  assumes "0 \<le> x" "x \<le> y"
  shows "js_le (toFixed d (Fin x)) (toFixed d (Fin y))"
proof -
  have "x * 10 ^ d + 1 / 2 \<le> y * 10 ^ d + 1 / 2" using assms by (simp add: mult_right_mono)
  then have "\<lfloor>x * 10 ^ d + 1 / 2\<rfloor> \<le> \<lfloor>y * 10 ^ d + 1 / 2\<rfloor>" by (rule floor_mono)
  then have "(of_int \<lfloor>x * 10 ^ d + 1 / 2\<rfloor> :: rat) / 10 ^ d \<le> of_int \<lfloor>y * 10 ^ d + 1 / 2\<rfloor> / 10 ^ d"
    by (simp add: divide_right_mono)
  with assms show ?thesis by auto
qed

lemma toFixed_one: "toFixed d (Fin 1) = Fin 1"
proof -
  have "\<lfloor>(10::rat) ^ d + 1 / 2\<rfloor> = 10 ^ d"
    by (rule floor_unique) (simp_all)
  then show ?thesis by simp
qed

lemma js_le_Fin: "js_le (Fin a) (Fin b) = (a \<le> b)"
  by auto

lemma growth_ge_one: "1 \<le> growth"
  by (simp add: growth_def)

lemma compound_step:
  "js_add (Fin (growth ^ n)) (js_mul (Fin (growth ^ n)) FEE_PER_EXIT) = Fin (growth ^ Suc n)"
  by (simp add: FEE_PER_EXIT_def growth_def algebra_simps)

lemma toFixed_growth_mono:
  assumes "k \<le> n"
  shows "js_le (toFixed d (Fin (growth ^ k))) (toFixed d (Fin (growth ^ n)))"
proof (rule toFixed_mono)
  from growth_ge_one show "0 \<le> growth ^ k" by simp
  from growth_ge_one assms show "growth ^ k \<le> growth ^ n" by (rule power_increasing [rotated])
qed

lemma toFixed_growth_ge_one: "js_le (Fin 1) (toFixed d (Fin (growth ^ k)))"
proof -
  have "1 \<le> growth ^ k" using growth_ge_one by (rule one_le_power)
  from toFixed_mono [of 1 _ d, OF _ this] show ?thesis by (simp only: toFixed_one)
qed

lemma loopBody_skip: "\<not> finiteRow row \<Longrightarrow> loopBody ratio cd s row = s"
  by (auto simp: loopBody_def finiteRow_def)

lemma loopBody_exit:
  assumes "exitsAt cd s row"
  shows "loopBody ratio cd s row =
     s\<lparr>st_exits := st_exits s + 1, st_lastExitTs := row_t row,
       st_equity := js_add (st_equity s) (js_mul (st_equity s) FEE_PER_EXIT),
       st_band := toBand ratio (row_c row),
       st_equitySeries := st_equitySeries s @
         [\<lparr>point_t = row_t row,
           point_equity = toFixed 6 (js_add (st_equity s) (js_mul (st_equity s) FEE_PER_EXIT))\<rparr>]\<rparr>"
  using assms by (auto simp: loopBody_def Let_def finiteRow_def exitsAt_def)

lemma loopBody_stay:
  assumes "finiteRow row" "\<not> exitsAt cd s row"
  shows "loopBody ratio cd s row =
     s\<lparr>st_equitySeries := st_equitySeries s @
         [\<lparr>point_t = row_t row, point_equity = toFixed 6 (st_equity s)\<rparr>]\<rparr>"
  using assms by (auto simp: loopBody_def Let_def finiteRow_def exitsAt_def)

lemma loopBody_compounded:
  assumes inv: "compounded s"
  shows "compounded (loopBody ratio cd s row)"
proof -
  from inv have eq: "st_equity s = Fin (growth ^ st_exits s)"
    and pts: "\<forall>p \<in> set (st_equitySeries s). \<exists>k \<le> st_exits s. point_equity p = toFixed 6 (Fin (growth ^ k))"
    and srt: "sorted_wrt js_le (map point_equity (st_equitySeries s))"
    by (simp_all add: compounded_def)
  have below: "js_le (point_equity p) (toFixed 6 (Fin (growth ^ n)))"
    if "p \<in> set (st_equitySeries s)" "st_exits s \<le> n" for p n
  proof -
    from pts that(1) obtain k where "k \<le> st_exits s" "point_equity p = toFixed 6 (Fin (growth ^ k))"
      by blast
    with that(2) toFixed_growth_mono [of k n 6] show ?thesis by simp
  qed
  consider "\<not> finiteRow row" | "exitsAt cd s row" | "finiteRow row" "\<not> exitsAt cd s row"
    by blast
  then show ?thesis
  proof cases
    case 1
    with inv show ?thesis by (simp add: loopBody_skip)
  next
    case 2
    have "\<exists>k \<le> Suc (st_exits s). point_equity p = toFixed 6 (Fin (growth ^ k))"
      if "p \<in> set (st_equitySeries s)" for p
      using pts that le_SucI by blast
    with 2 eq srt below show ?thesis
      by (simp add: loopBody_exit compounded_def compound_step sorted_wrt_append del: toFixed.simps power_Suc)
        (auto simp del: toFixed.simps power_Suc)
  next
    case 3
    with eq pts srt below show ?thesis
      by (simp add: loopBody_stay compounded_def sorted_wrt_append del: toFixed.simps)
        (auto simp del: toFixed.simps)
  qed
qed

lemma foldl_compounded:
  "compounded s \<Longrightarrow> compounded (foldl (loopBody ratio cd) s rows)"
  by (induction rows arbitrary: s) (simp_all add: loopBody_compounded)

lemma initialState_compounded: "compounded (initialState ratio rows)"
  by (simp add: initialState_def compounded_def)

lemma loopEnd_compounded: "compounded (loopEnd rows bps cd)"
  by (simp add: loopEnd_def Let_def foldl_compounded initialState_compounded)


lemma runBacktest_exits: "exits (runBacktest rows bps cd) = st_exits (loopEnd rows bps cd)"
  by (simp add: runBacktest_def Let_def)

lemma runBacktest_finalEquity:
  "finalEquity (runBacktest rows bps cd) = toFixed 6 (st_equity (loopEnd rows bps cd))"
  by (simp add: runBacktest_def Let_def)

lemma runBacktest_equitySeries:
  "equitySeries (runBacktest rows bps cd) = st_equitySeries (loopEnd rows bps cd)"
  by (simp add: runBacktest_def Let_def)

lemma toFixed_nonneg:
  assumes "0 \<le> x"
  shows "js_le (Fin 0) (toFixed d (Fin x))"
proof -
  have "0 \<le> x * 10 ^ d + 1 / 2" using assms by simp
  then have "0 \<le> \<lfloor>x * 10 ^ d + 1 / 2\<rfloor>" by simp
  then have "(0::rat) \<le> of_int \<lfloor>x * 10 ^ d + 1 / 2\<rfloor> / 10 ^ d" by simp
  with assms show ?thesis by (simp add: js_le_Fin del: js_le.simps)
qed

text \<open>
  C10. In every result of \<open>runBacktest\<close> the recorded equities never fall from one point to
  the next in input order, every recorded equity is at least 1, and \<open>totalFeesPct\<close> and
  \<open>finalEquity\<close> are not negative (\<open>finalEquity\<close> is at least 1).
\<close>

theorem runBacktest_equity_never_falls:
  "sorted_wrt js_le (map point_equity (equitySeries (runBacktest rows bps cd))) \<and>
   (\<forall>p \<in> set (equitySeries (runBacktest rows bps cd)). js_ge (point_equity p) (Fin 1)) \<and>
   js_ge (totalFeesPct (runBacktest rows bps cd)) (Fin 0) \<and>
   js_ge (finalEquity (runBacktest rows bps cd)) (Fin 1) \<and>
   js_ge (finalEquity (runBacktest rows bps cd)) (Fin 0)"
proof -
  let ?s = "loopEnd rows bps cd"
  from loopEnd_compounded [of rows bps cd]
  have eq: "st_equity ?s = Fin (growth ^ st_exits ?s)"
    and pts: "\<forall>p \<in> set (st_equitySeries ?s). \<exists>k \<le> st_exits ?s. point_equity p = toFixed 6 (Fin (growth ^ k))"
    and srt: "sorted_wrt js_le (map point_equity (st_equitySeries ?s))"
    by (simp_all add: compounded_def)
  have one: "1 \<le> growth ^ st_exits ?s" using growth_ge_one by (rule one_le_power)
  have a: "sorted_wrt js_le (map point_equity (equitySeries (runBacktest rows bps cd)))"
    using srt by (simp only: runBacktest_equitySeries)
  have b: "\<forall>p \<in> set (equitySeries (runBacktest rows bps cd)). js_ge (point_equity p) (Fin 1)"
    unfolding runBacktest_equitySeries js_ge_def
  proof
    fix p assume "p \<in> set (st_equitySeries ?s)"
    with pts obtain k where "point_equity p = toFixed 6 (Fin (growth ^ k))" by blast
    with toFixed_growth_ge_one [of 6 k] show "js_le (Fin 1) (point_equity p)" by simp
  qed
  have fees: "totalFeesPct (runBacktest rows bps cd) = toFixed 4 (Fin ((growth ^ st_exits ?s - 1) * 100))"
    using one by (simp add: runBacktest_def Let_def eq js_gt_def js_sub_def del: toFixed.simps)
  have "0 \<le> (growth ^ st_exits ?s - 1) * 100" using one by simp
  from toFixed_nonneg [OF this, of 4] fees
  have c: "js_ge (totalFeesPct (runBacktest rows bps cd)) (Fin 0)"
    by (simp add: js_ge_def del: toFixed.simps)
  have d: "js_ge (finalEquity (runBacktest rows bps cd)) (Fin 1)"
    using toFixed_growth_ge_one [of 6 "st_exits ?s"]
    by (simp add: runBacktest_finalEquity eq js_ge_def del: toFixed.simps)
  have "0 \<le> growth ^ st_exits ?s" using one by simp
  from toFixed_nonneg [OF this, of 6]
  have e: "js_ge (finalEquity (runBacktest rows bps cd)) (Fin 0)"
    by (simp add: runBacktest_finalEquity eq js_ge_def del: toFixed.simps)
  from a b c d e show ?thesis by blast
qed

theorem runBacktest_equity_never_falls_witness:
  "map point_equity (equitySeries (runBacktest
      [candle 0 (105 / 100) (95 / 100) 1, candle 500 1 1 1,
       candle 1000 (13 / 10) (12 / 10) (125 / 100)] (Fin 100) (Fin 0))) =
     [Fin (5001 / 5000), Fin (5001 / 5000), Fin (2501 / 2500)] \<and>
   sorted_wrt js_le [Fin (5001 / 5000), Fin (5001 / 5000), Fin (2501 / 2500)]"
proof -
  have run: "map point_equity (equitySeries (runBacktest
      [candle 0 (105 / 100) (95 / 100) 1, candle 500 1 1 1,
       candle 1000 (13 / 10) (12 / 10) (125 / 100)] (Fin 100) (Fin 0))) =
     [Fin (5001 / 5000), Fin (5001 / 5000), Fin (2501 / 2500)]"
    by code_simp
  from runBacktest_equity_never_falls
    [of "[candle 0 (105 / 100) (95 / 100) 1, candle 500 1 1 1,
          candle 1000 (13 / 10) (12 / 10) (125 / 100)]" "Fin 100" "Fin 0"]
  have "sorted_wrt js_le (map point_equity (equitySeries (runBacktest
      [candle 0 (105 / 100) (95 / 100) 1, candle 500 1 1 1,
       candle 1000 (13 / 10) (12 / 10) (125 / 100)] (Fin 100) (Fin 0))))"
    by blast
  with run show ?thesis by (simp only: simp_thms)
qed







text \<open>Before the first exit, with a finite cooldown, every candle with a finite time may exit.\<close>

lemma canExit_initialState:
  assumes "js_isFinite (row_t row)"
  shows "canExit (Fin cd) (initialState ratio rows) row"
  using assms
  by (cases "row_t row") (simp_all add: canExit_def initialState_def js_ge_def)






section \<open>Properties of the backtest in binary64\<close>

lemma roundHalfEven_near: "\<bar>of_int (roundHalfEven q) - q\<bar> \<le> 1 / 2"
proof -
  have "of_int \<lfloor>q\<rfloor> \<le> q" "q < of_int \<lfloor>q\<rfloor> + 1" by linarith+
  then show ?thesis
    by (auto simp: roundHalfEven_def Let_def)
qed

lemma roundHalfEven_unique:
  assumes "\<bar>q - of_int m\<bar> < 1 / 2"
  shows "roundHalfEven q = m"
proof -
  from assms have lo: "of_int m - 1 / 2 < q" and hi: "q < of_int m + 1 / 2" by linarith+
  consider "\<lfloor>q\<rfloor> = m" | "\<lfloor>q\<rfloor> = m - 1"
  proof -
    have "m - 1 \<le> \<lfloor>q\<rfloor>" using lo by linarith
    moreover have "\<lfloor>q\<rfloor> \<le> m" using hi by linarith
    ultimately show ?thesis using that by linarith
  qed
  then show ?thesis
  proof cases
    case 1
    with hi have "q - of_int \<lfloor>q\<rfloor> < 1 / 2" by simp
    with 1 show ?thesis by (simp add: roundHalfEven_def Let_def)
  next
    case 2
    with lo have "1 / 2 < q - of_int \<lfloor>q\<rfloor>" by simp
    with 2 show ?thesis by (simp add: roundHalfEven_def Let_def)
  qed
qed

lemma bitlen_between:
  assumes "2 ^ j \<le> n" "n < 2 ^ Suc j"
  shows "bitlen n = int j + 1"
proof -
  have "(0::int) < 2 ^ j" by simp
  with assms(1) have pos: "0 < n" by linarith
  from bitlen_bounds [OF pos] have b: "2 ^ nat (bitlen n - 1) \<le> n" "n < 2 ^ nat (bitlen n)" by auto
  from b(1) assms(2) have "(2::int) ^ nat (bitlen n - 1) < 2 ^ Suc j" by linarith
  then have 1: "nat (bitlen n - 1) < Suc j" by (rule power_less_imp_less_exp [rotated]) simp
  from b(2) assms(1) have "(2::int) ^ j < 2 ^ nat (bitlen n)" by linarith
  then have 2: "j < nat (bitlen n)" by (rule power_less_imp_less_exp [rotated]) simp
  from 1 2 show ?thesis by linarith
qed

lemma floor_between:
  fixes y :: rat
  assumes "2 ^ j \<le> y" "y < 2 ^ Suc j"
  shows "2 ^ j \<le> \<lfloor>y\<rfloor>" "\<lfloor>y\<rfloor> < 2 ^ Suc j"
proof -
  have "(of_int (2 ^ j) :: rat) \<le> y" using assms(1) by simp
  then show "2 ^ j \<le> \<lfloor>y\<rfloor>" by (simp only: le_floor_iff)
  have "y < of_int (2 ^ Suc j)" using assms(2) by simp
  then show "\<lfloor>y\<rfloor> < 2 ^ Suc j" by (simp only: floor_less_iff)
qed

lemma round64_normal:
  assumes "2 ^ (52 + j) \<le> x * 2 ^ 1074" "x * 2 ^ 1074 < 2 ^ (53 + j)"
  shows "round64 x =
     (if 2 ^ 1024 \<le> of_int (roundHalfEven (x * 2 ^ 1074 / 2 ^ j)) * 2 ^ j / (2 ^ 1074 :: rat)
      then PosInf
      else Fin (of_int (roundHalfEven (x * 2 ^ 1074 / 2 ^ j)) * 2 ^ j / 2 ^ 1074))"
proof -
  from assms floor_between [of "52 + j" "x * 2 ^ 1074"]
  have "2 ^ (52 + j) \<le> \<lfloor>x * 2 ^ 1074\<rfloor>" "\<lfloor>x * 2 ^ 1074\<rfloor> < 2 ^ Suc (52 + j)" by simp_all
  from bitlen_between [OF this] have "nat (bitlen \<lfloor>x * 2 ^ 1074\<rfloor> - 53) = j" by simp
  then show ?thesis by (simp only: round64_def Let_def)
qed


lemma abs_diff_divide:
  fixes a b c :: rat
  assumes "0 < c"
  shows "\<bar>a - b\<bar> / c = \<bar>a / c - b / c\<bar>"
proof -
  have "a / c - b / c = (a - b) / c" by (simp add: diff_divide_distrib)
  with assms show ?thesis by (simp add: abs_divide)
qed

text \<open>
  From \<open>2^-1022\<close> on, rounding moves a number by at most the fraction \<open>2^-53\<close> of it.
\<close>

lemma round64_error:
  assumes "1 / 2 ^ 1022 \<le> x"
  shows "round64 x = PosInf \<or> (\<exists>v. round64 x = Fin v \<and> \<bar>v - x\<bar> \<le> x / 2 ^ 53)"
proof -
  define P :: rat where "P = 2 ^ 1074"
  define y where "y = x * P"
  define k where "k = nat (bitlen \<lfloor>y\<rfloor> - 53)"
  define m where "m = roundHalfEven (y / 2 ^ k)"
  define v where "v = of_int m * 2 ^ k / P"
  have P: "0 < P" by (simp add: P_def)
  have x: "x = y / P" using P by (simp add: y_def)
  have r: "round64 x = (if 2 ^ 1024 \<le> v then PosInf else Fin v)"
    by (simp only: round64_def Let_def y_def k_def m_def v_def P_def)
  have "(2::rat) ^ 52 = (1 / 2 ^ 1022) * P"
    unfolding P_def by (simp add: power_diff [symmetric, where 'a = rat])
  also have "\<dots> \<le> y" unfolding y_def using assms P by (intro mult_right_mono) simp_all
  finally have y52: "2 ^ 52 \<le> y" .
  then have "(of_int (2 ^ 52) :: rat) \<le> y" by simp
  then have n52: "2 ^ 52 \<le> \<lfloor>y\<rfloor>" by (simp only: le_floor_iff)
  have "(0::int) < 2 ^ 52" by simp
  with n52 have pos: "0 < \<lfloor>y\<rfloor>" by linarith
  from bitlen_bounds [OF pos]
  have b: "2 ^ nat (bitlen \<lfloor>y\<rfloor> - 1) \<le> \<lfloor>y\<rfloor>" "\<lfloor>y\<rfloor> < 2 ^ nat (bitlen \<lfloor>y\<rfloor>)"
    by auto
  from n52 b(2) have "(2::int) ^ 52 < 2 ^ nat (bitlen \<lfloor>y\<rfloor>)" by linarith
  then have "52 < nat (bitlen \<lfloor>y\<rfloor>)" by (rule power_less_imp_less_exp [rotated]) simp
  then have e: "nat (bitlen \<lfloor>y\<rfloor> - 1) = k + 52" unfolding k_def by linarith
  have "(2::rat) ^ (k + 52) = of_int (2 ^ (k + 52))" by simp
  also have "\<dots> \<le> of_int \<lfloor>y\<rfloor>" using b(1) unfolding e by (simp only: of_int_le_iff)
  also have "\<dots> \<le> y" by (rule of_int_floor_le)
  finally have ylow: "2 ^ (k + 52) \<le> y" .
  have k: "(0::rat) < 2 ^ k" by simp
  have "\<bar>of_int m - y / 2 ^ k\<bar> \<le> 1 / 2" unfolding m_def by (rule roundHalfEven_near)
  then have "\<bar>of_int m * 2 ^ k / 2 ^ k - y / 2 ^ k\<bar> \<le> 1 / 2" by simp
  then have "\<bar>of_int m * 2 ^ k - y\<bar> / 2 ^ k \<le> 1 / 2"
    by (simp only: abs_diff_divide [OF k])
  then have d: "\<bar>of_int m * 2 ^ k - y\<bar> \<le> 2 ^ k / 2"
    using k by (simp add: field_simps)
  have "(2::rat) ^ k / 2 = 2 ^ (k + 52) / 2 ^ 53" by (simp add: power_add)
  also have "\<dots> \<le> y / 2 ^ 53" using ylow by (rule divide_right_mono) simp
  finally have "\<bar>of_int m * 2 ^ k - y\<bar> \<le> y / 2 ^ 53" using d by linarith
  then have "\<bar>of_int m * 2 ^ k - y\<bar> / P \<le> (y / 2 ^ 53) / P"
    using P by (intro divide_right_mono) simp_all
  then have "\<bar>of_int m * 2 ^ k / P - y / P\<bar> \<le> (y / P) / 2 ^ 53"
    by (simp only: abs_diff_divide [OF P] divide_divide_eq_left mult.commute)
  then have "\<bar>v - x\<bar> \<le> x / 2 ^ 53" by (simp only: v_def x [symmetric])
  with r show ?thesis by auto
qed

text \<open>
  The value of \<open>binary64\<close> below \<open>2^53\<close>, from the significand: \<open>m\<close> is the integer nearest
  to \<open>x * 2^a\<close>, which lies between \<open>2^52\<close> and \<open>2^53\<close>.
\<close>

lemma binary64_eval:
  assumes "2 ^ 52 \<le> x * 2 ^ a" "x * 2 ^ a < 2 ^ 53" "a \<le> 1074"
    and "\<bar>x * 2 ^ a - of_int m\<bar> < 1 / 2"
  shows "binary64 (Fin x) = Fin (of_int m / 2 ^ a)"
proof -
  define j where "j = 1074 - a"
  define Q :: rat where "Q = 2 ^ 1024"
  from assms(3) have aj: "a + j = 1074" by (simp add: j_def)
  have pos: "0 < x"
  proof (rule ccontr)
    assume "\<not> 0 < x"
    then have "x * 2 ^ a \<le> 0" by (simp add: mult_le_0_iff)
    moreover have "(0::rat) < 2 ^ 52" by simp
    ultimately show False using assms(1) by linarith
  qed
  have Pa: "(2::rat) ^ 1074 = 2 ^ a * 2 ^ j" by (simp only: power_add [symmetric] aj)
  have y: "x * 2 ^ 1074 = x * 2 ^ a * 2 ^ j" by (simp only: Pa mult.assoc)
  have j: "(0::rat) < 2 ^ j" by simp
  have 1: "2 ^ (52 + j) \<le> x * 2 ^ 1074"
    unfolding y power_add using assms(1) j by (intro mult_right_mono) simp_all
  have 2: "x * 2 ^ 1074 < 2 ^ (53 + j)"
    unfolding y power_add using assms(2) j by (intro mult_strict_right_mono) simp_all
  have q: "x * 2 ^ 1074 / 2 ^ j = x * 2 ^ a"
    unfolding y by simp
  have m: "roundHalfEven (x * 2 ^ a) = m" by (rule roundHalfEven_unique [OF assms(4)])
  have v: "of_int m * 2 ^ j / (2 ^ 1074 :: rat) = of_int m / 2 ^ a"
    unfolding Pa by simp
  have "of_int m < x * 2 ^ a + 1 / 2" using assms(4) by linarith
  with assms(2) have "(of_int m :: rat) < 2 ^ 53 + 1 / 2" by linarith
  moreover have "(2::rat) ^ 53 + 1 / 2 < Q" unfolding Q_def by simp
  ultimately have mQ: "of_int m < Q" by linarith
  have "0 < Q" unfolding Q_def by simp
  then have "Q * 1 \<le> Q * 2 ^ a" by (intro mult_left_mono) simp_all
  with mQ have "of_int m < Q * 2 ^ a" by simp
  then have "of_int m / 2 ^ a < Q" by (simp add: pos_divide_less_eq)
  then have small: "\<not> 2 ^ 1024 \<le> of_int m / (2 ^ a :: rat)" unfolding Q_def by (simp only: not_le)
  from pos have nn: "\<not> x < 0" by simp
  have "binary64 (Fin x) = round64 x" using nn by (simp only: binary64.simps if_False)
  also have "\<dots> = Fin (of_int m / 2 ^ a)"
    by (simp only: round64_normal [OF 1 2] q m v small if_False)
  finally show ?thesis .
qed

lemma fee64: "binary64 (Fin (2 / 10000)) = Fin (7378697629483821 / 2 ^ 65)"
  using binary64_eval [of "2 / 10000" 65 7378697629483821] by simp

text \<open>Without rounding, the rounded model is the exact one.\<close>

lemma loopBodyR_exact: "loopBodyR (\<lambda>x. x) ratio cd s row = loopBody ratio cd s row"
  by (auto simp: loopBodyR_def loopBody_def canExitR_def canExit_def toBandR_def toBand_def
      compoundR_def Let_def)

lemma runBacktestR_exact: "runBacktestR (\<lambda>x. x) rows bps cd = runBacktest rows bps cd"
proof -
  have "loopBodyR (\<lambda>x. x) ratio cd = loopBody ratio cd" for ratio
    by (intro ext) (rule loopBodyR_exact)
  then have "loopEndR (\<lambda>x. x) rows bps cd = loopEnd rows bps cd"
    by (simp add: loopEndR_def loopEnd_def initialStateR_def initialState_def toBandR_def toBand_def)
  then show ?thesis by (simp add: runBacktestR_def runBacktest_def Let_def)
qed

text \<open>The equity is the update applied once for each exit.\<close>

lemma loopBodyR_equity:
  assumes "st_equity s = (compoundR rnd ^^ st_exits s) (Fin 1)"
  shows "st_equity (loopBodyR rnd ratio cd s row) =
           (compoundR rnd ^^ st_exits (loopBodyR rnd ratio cd s row)) (Fin 1)"
  using assms by (simp add: loopBodyR_def Let_def)

lemma foldl_loopBodyR_equity:
  assumes "st_equity s = (compoundR rnd ^^ st_exits s) (Fin 1)"
  shows "st_equity (foldl (loopBodyR rnd ratio cd) s rows) =
           (compoundR rnd ^^ st_exits (foldl (loopBodyR rnd ratio cd) s rows)) (Fin 1)"
  using assms by (induction rows arbitrary: s) (simp_all add: loopBodyR_equity)

lemma loopEndR_equity:
  "st_equity (loopEndR rnd rows bps cd) = (compoundR rnd ^^ st_exits (loopEndR rnd rows bps cd)) (Fin 1)"
  unfolding loopEndR_def Let_def
  by (rule foldl_loopBodyR_equity) (simp add: initialStateR_def)


lemma FEE_PER_EXIT_binary64: "binary64 FEE_PER_EXIT = Fin (7378697629483821 / 2 ^ 65)"
  unfolding FEE_PER_EXIT_def by (rule fee64)

lemma binary64_PosInf: "binary64 PosInf = PosInf"
  by simp

lemma compound64_PosInf: "compoundR binary64 PosInf = PosInf"
  by (simp add: compoundR_def FEE_PER_EXIT_binary64)

text \<open>
  One update in binary64, from an equity of at least 1: an infinity, or the exact product
  \<open>v * 1.0002\<close> within three roundings, and again at least 1.
\<close>

lemma compound64_step:
  assumes "1 \<le> v"
  shows "compoundR binary64 (Fin v) = PosInf \<or>
         (\<exists>w. compoundR binary64 (Fin v) = Fin w \<and> 1 \<le> w \<and>
              v * ((1 + 2 / 10000) * (1 - 1 / 2 ^ 53) ^ 3) \<le> w \<and>
              w \<le> v * ((1 + 2 / 10000) * (1 + 1 / 2 ^ 53) ^ 3))"
proof -
  define F :: rat where "F = 7378697629483821 / 2 ^ 65"
  define u :: rat where "u = 1 / 2 ^ 53"
  have F: "0 < F" "1 / 2 ^ 1022 \<le> F" by (simp_all add: F_def)
  have u: "0 \<le> u" "u \<le> 1" by (simp_all add: u_def)
  have lo: "(1 + 2 / 10000) * (1 - u) ^ 3 \<le> (1 + F * (1 - u)) * (1 - u)"
    by (simp add: F_def u_def power3_eq_cube)
  have one: "1 \<le> (1 + F * (1 - u)) * (1 - u)"
    by (simp add: F_def u_def)
  have hi: "(1 + F * (1 + u)) * (1 + u) \<le> (1 + 2 / 10000) * (1 + u) ^ 3"
    by (simp add: F_def u_def power3_eq_cube)
  have v0: "0 \<le> v" using assms by simp
  have mul: "js_mul (Fin v) (binary64 FEE_PER_EXIT) = Fin (v * F)"
    by (simp add: FEE_PER_EXIT_binary64 F_def)
  have vF: "0 \<le> v * F" "1 / 2 ^ 1022 \<le> v * F"
  proof -
    show "0 \<le> v * F" using v0 F(1) by simp
    have "F = 1 * F" by simp
    also have "\<dots> \<le> v * F" using assms F(1) by (intro mult_right_mono) simp_all
    finally show "1 / 2 ^ 1022 \<le> v * F" using F(2) by linarith
  qed
  have gain: "binary64 (Fin (v * F)) = round64 (v * F)" using vF(1) by simp
  from round64_error [OF vF(2)] show ?thesis
  proof
    assume "round64 (v * F) = PosInf"
    then have "compoundR binary64 (Fin v) = PosInf"
      by (simp add: compoundR_def mul gain del: binary64.simps(1))
    then show ?thesis by simp
  next
    assume "\<exists>g. round64 (v * F) = Fin g \<and> \<bar>g - v * F\<bar> \<le> v * F / 2 ^ 53"
    then obtain g where g: "round64 (v * F) = Fin g" "\<bar>g - v * F\<bar> \<le> v * F * u"
      by (auto simp: u_def)
    have glo: "v * F * (1 - u) \<le> g" and ghi: "g \<le> v * F * (1 + u)"
      using g(2) by (simp_all add: algebra_simps abs_le_iff)
    have "0 \<le> v * F * (1 - u)" using vF(1) u by simp
    with glo have g0: "0 \<le> g" by linarith
    with assms have s1: "1 \<le> v + g" by linarith
    have s0: "0 \<le> v + g" "1 / 2 ^ 1022 \<le> v + g"
    proof -
      show "0 \<le> v + g" using s1 by linarith
      have "(1 :: rat) / 2 ^ 1022 \<le> 1" by simp
      with s1 show "1 / 2 ^ 1022 \<le> v + g" by linarith
    qed
    have sumr: "binary64 (Fin (v + g)) = round64 (v + g)" using s0(1) by simp
    have sum: "compoundR binary64 (Fin v) = round64 (v + g)"
      by (simp add: compoundR_def mul gain g(1) sumr del: binary64.simps(1))
    from round64_error [OF s0(2)] show ?thesis
    proof
      assume "round64 (v + g) = PosInf"
      with sum show ?thesis by simp
    next
      assume "\<exists>w. round64 (v + g) = Fin w \<and> \<bar>w - (v + g)\<bar> \<le> (v + g) / 2 ^ 53"
      then obtain w where w: "round64 (v + g) = Fin w" "\<bar>w - (v + g)\<bar> \<le> (v + g) * u"
        by (auto simp: u_def)
      have wlo: "(v + g) * (1 - u) \<le> w" and whi: "w \<le> (v + g) * (1 + u)"
        using w(2) by (simp_all add: algebra_simps abs_le_iff)
      have "v * (1 + F * (1 - u)) \<le> v + g" using glo by (simp add: algebra_simps)
      then have "v * (1 + F * (1 - u)) * (1 - u) \<le> (v + g) * (1 - u)"
        using u by (intro mult_right_mono) simp_all
      with wlo have low: "v * ((1 + F * (1 - u)) * (1 - u)) \<le> w" by (simp add: mult.assoc)
      have "v + g \<le> v * (1 + F * (1 + u))" using ghi by (simp add: algebra_simps)
      then have "(v + g) * (1 + u) \<le> v * (1 + F * (1 + u)) * (1 + u)"
        using u by (intro mult_right_mono) simp_all
      with whi have high: "w \<le> v * ((1 + F * (1 + u)) * (1 + u))" by (simp add: mult.assoc)
      have "v * ((1 + 2 / 10000) * (1 - u) ^ 3) \<le> v * ((1 + F * (1 - u)) * (1 - u))"
        using lo v0 by (rule mult_left_mono)
      with low have 1: "v * ((1 + 2 / 10000) * (1 - u) ^ 3) \<le> w" by linarith
      have "v * ((1 + F * (1 + u)) * (1 + u)) \<le> v * ((1 + 2 / 10000) * (1 + u) ^ 3)"
        using hi v0 by (rule mult_left_mono)
      with high have 2: "w \<le> v * ((1 + 2 / 10000) * (1 + u) ^ 3)" by linarith
      have "v * 1 \<le> v * ((1 + F * (1 - u)) * (1 - u))"
        using one v0 by (rule mult_left_mono)
      with low assms have 3: "1 \<le> w" by linarith
      from sum w(1) have eq: "compoundR binary64 (Fin v) = Fin w" by simp
      from eq 1 2 3 show ?thesis unfolding u_def by blast
    qed
  qed
qed

lemma compound64_bounds:
  "(compoundR binary64 ^^ n) (Fin 1) = PosInf \<or>
   (\<exists>v. (compoundR binary64 ^^ n) (Fin 1) = Fin v \<and> 1 \<le> v \<and>
        (1 + 2 / 10000) ^ n * (1 - 1 / 2 ^ 53) ^ (3 * n) \<le> v \<and>
        v \<le> (1 + 2 / 10000) ^ n * (1 + 1 / 2 ^ 53) ^ (3 * n))"
proof (induction n)
  case 0
  show ?case by simp
next
  case (Suc n)
  define L :: rat where "L = (1 + 2 / 10000) * (1 - 1 / 2 ^ 53) ^ 3"
  define U :: rat where "U = (1 + 2 / 10000) * (1 + 1 / 2 ^ 53) ^ 3"
  have LU: "0 \<le> L" "0 \<le> U" by (simp_all add: L_def U_def)
  have Ln: "(1 + 2 / 10000) ^ Suc n * (1 - 1 / 2 ^ 53) ^ (3 * Suc n) =
      ((1 + 2 / 10000) ^ n * (1 - 1 / 2 ^ 53) ^ (3 * n)) * L"
    unfolding L_def by (simp only: power_Suc mult_Suc_right power_add power3_eq_cube) (simp only: ac_simps)
  have Un: "(1 + 2 / 10000) ^ Suc n * (1 + 1 / 2 ^ 53) ^ (3 * Suc n) =
      ((1 + 2 / 10000) ^ n * (1 + 1 / 2 ^ 53) ^ (3 * n)) * U"
    unfolding U_def by (simp only: power_Suc mult_Suc_right power_add power3_eq_cube) (simp only: ac_simps)
  from Suc.IH show ?case
  proof
    assume "(compoundR binary64 ^^ n) (Fin 1) = PosInf"
    then show ?thesis by (simp add: compound64_PosInf)
  next
    assume "\<exists>v. (compoundR binary64 ^^ n) (Fin 1) = Fin v \<and> 1 \<le> v \<and>
        (1 + 2 / 10000) ^ n * (1 - 1 / 2 ^ 53) ^ (3 * n) \<le> v \<and>
        v \<le> (1 + 2 / 10000) ^ n * (1 + 1 / 2 ^ 53) ^ (3 * n)"
    then obtain v where v: "(compoundR binary64 ^^ n) (Fin 1) = Fin v" "1 \<le> v"
        "(1 + 2 / 10000) ^ n * (1 - 1 / 2 ^ 53) ^ (3 * n) \<le> v"
        "v \<le> (1 + 2 / 10000) ^ n * (1 + 1 / 2 ^ 53) ^ (3 * n)"
      by blast
    have step: "(compoundR binary64 ^^ Suc n) (Fin 1) = compoundR binary64 (Fin v)"
      by (simp add: v(1))
    from compound64_step [OF v(2)] show ?thesis
    proof
      assume "compoundR binary64 (Fin v) = PosInf"
      with step show ?thesis by simp
    next
      assume "\<exists>w. compoundR binary64 (Fin v) = Fin w \<and> 1 \<le> w \<and>
              v * ((1 + 2 / 10000) * (1 - 1 / 2 ^ 53) ^ 3) \<le> w \<and>
              w \<le> v * ((1 + 2 / 10000) * (1 + 1 / 2 ^ 53) ^ 3)"
      then obtain w where w: "compoundR binary64 (Fin v) = Fin w" "1 \<le> w"
          "v * L \<le> w" "w \<le> v * U"
        unfolding L_def U_def by blast
      have "((1 + 2 / 10000) ^ n * (1 - 1 / 2 ^ 53) ^ (3 * n)) * L \<le> v * L"
        using v(3) LU(1) by (rule mult_right_mono)
      with w(3) have 1: "(1 + 2 / 10000) ^ Suc n * (1 - 1 / 2 ^ 53) ^ (3 * Suc n) \<le> w"
        unfolding Ln by linarith
      have "v * U \<le> ((1 + 2 / 10000) ^ n * (1 + 1 / 2 ^ 53) ^ (3 * n)) * U"
        using v(4) LU(2) by (rule mult_right_mono)
      with w(4) have 2: "w \<le> (1 + 2 / 10000) ^ Suc n * (1 + 1 / 2 ^ 53) ^ (3 * Suc n)"
        unfolding Un by linarith
      from step w(1) have eq: "(compoundR binary64 ^^ Suc n) (Fin 1) = Fin w" by simp
      from eq w(2) 1 2 show ?thesis by blast
    qed
  qed
qed

lemma binary64_zero: "binary64 (Fin 0) = Fin 0"
  by (simp add: round64_def roundHalfEven_def)

lemma runBacktestR_exits: "exits (runBacktestR rnd rows bps cd) = st_exits (loopEndR rnd rows bps cd)"
  by (simp add: runBacktestR_def Let_def)

lemma runBacktestR_finalEquity:
  "finalEquity (runBacktestR rnd rows bps cd) = rnd (toFixed 6 (st_equity (loopEndR rnd rows bps cd)))"
  by (simp add: runBacktestR_def Let_def)

text \<open>
  C5, as the code has it. On every candle sequence on which \<open>runBacktest\<close> counts \<open>n\<close>
  exits, the equity with which the loop ends is the result of \<open>n\<close> updates
  \<open>equity += equity * FEE_PER_EXIT\<close> in binary64, starting from 1, and the reported
  \<open>finalEquity\<close> is that accumulator rounded to 6 decimals and read back. The accumulator
  is an infinity after an overflow; otherwise it lies between
  \<open>(1 + 0.0002)^n * (1 - 2^-53)^(3n)\<close> and \<open>(1 + 0.0002)^n * (1 + 2^-53)^(3n)\<close>: it is the
  power within the tolerance of three roundings for each exit, not the power itself.
\<close>

theorem runBacktest_binary64_compounding:
  assumes "exits (runBacktestR binary64 rows bps cd) = n"
  shows "st_equity (loopEndR binary64 rows bps cd) = (compoundR binary64 ^^ n) (Fin 1) \<and>
         finalEquity (runBacktestR binary64 rows bps cd) =
           binary64 (toFixed 6 (st_equity (loopEndR binary64 rows bps cd))) \<and>
         (st_equity (loopEndR binary64 rows bps cd) = PosInf \<or>
          (\<exists>v. st_equity (loopEndR binary64 rows bps cd) = Fin v \<and>
               (1 + 2 / 10000) ^ n * (1 - 1 / 2 ^ 53) ^ (3 * n) \<le> v \<and>
               v \<le> (1 + 2 / 10000) ^ n * (1 + 1 / 2 ^ 53) ^ (3 * n)))"
proof -
  from assms have n: "st_exits (loopEndR binary64 rows bps cd) = n"
    by (simp only: runBacktestR_exits)
  have eq: "st_equity (loopEndR binary64 rows bps cd) = (compoundR binary64 ^^ n) (Fin 1)"
    using loopEndR_equity [of binary64 rows bps cd] by (simp only: n)
  from compound64_bounds [of n]
  have "st_equity (loopEndR binary64 rows bps cd) = PosInf \<or>
          (\<exists>v. st_equity (loopEndR binary64 rows bps cd) = Fin v \<and>
               (1 + 2 / 10000) ^ n * (1 - 1 / 2 ^ 53) ^ (3 * n) \<le> v \<and>
               v \<le> (1 + 2 / 10000) ^ n * (1 + 1 / 2 ^ 53) ^ (3 * n))"
    unfolding eq by blast
  with eq runBacktestR_finalEquity [of binary64 rows bps cd] show ?thesis by blast
qed

text \<open>The roundings of a run with two exits, each by \<open>binary64_eval\<close>.\<close>

lemma binary64_1_16: "binary64 (Fin (1 / 16)) = Fin (1 / 16)"
  using binary64_eval [of "1 / 16" 56 4503599627370496] by simp

lemma binary64_15_16: "binary64 (Fin (15 / 16)) = Fin (15 / 16)"
  using binary64_eval [of "15 / 16" 53 8444249301319680] by simp

lemma binary64_17_16: "binary64 (Fin (17 / 16)) = Fin (17 / 16)"
  using binary64_eval [of "17 / 16" 52 4785074604081152] by simp

lemma binary64_fee: "binary64 (Fin (7378697629483821 / 36893488147419103232)) =
    Fin (7378697629483821 / 36893488147419103232)"
  using binary64_eval [of "7378697629483821 / 36893488147419103232" 65 7378697629483821] by simp

lemma binary64_first_sum: "binary64 (Fin (36900866845048587053 / 36893488147419103232)) =
    Fin (2252250173647985 / 2251799813685248)"
  using binary64_eval [of "36900866845048587053 / 36893488147419103232" 52 4504500347295970] by simp

lemma binary64_second_gain: "binary64 (Fin (16618673017300911131392106750685 / 83076749736557242056487941267521536)) =
    Fin (3690086684504859 / 18446744073709551616)"
  using binary64_eval [of "16618673017300911131392106750685 / 83076749736557242056487941267521536"
      65 7380173369009718] by simp

lemma binary64_second_sum: "binary64 (Fin (18454123509208797979 / 18446744073709551616)) =
    Fin (4505401247365429 / 4503599627370496)"
  using binary64_eval [of "18454123509208797979 / 18446744073709551616" 52 4505401247365429] by simp

lemma FEE_PER_EXIT_value: "binary64 FEE_PER_EXIT = Fin (7378697629483821 / 36893488147419103232)"
  using FEE_PER_EXIT_binary64 by simp

lemma compound_one: "compoundR binary64 (Fin 1) = Fin (2252250173647985 / 2251799813685248)"
  by (simp add: compoundR_def FEE_PER_EXIT_value binary64_fee binary64_first_sum del: binary64.simps(1))

lemma compound_two:
  "compoundR binary64 (Fin (2252250173647985 / 2251799813685248)) =
     Fin (4505401247365429 / 4503599627370496)"
  by (simp add: compoundR_def FEE_PER_EXIT_value binary64_second_gain binary64_second_sum del: binary64.simps(1))

lemmas run_defs = loopEndR_def loopBodyR_def initialStateR_def toBandR_def canExitR_def
      hitUpper_def hitLower_def candle_def js_sub_def js_ge_def js_gt_def Let_def

lemma run_one_exit:
  "st_exits (loopEndR binary64 [candle 0 2 1 1] (Fin 625) (Fin 0)) = 1 \<and>
   st_equity (loopEndR binary64 [candle 0 2 1 1] (Fin 625) (Fin 0)) =
     Fin (2252250173647985 / 2251799813685248)"
  by (simp add: run_defs binary64_zero binary64_1_16 binary64_15_16 binary64_17_16 compound_one del: binary64.simps(1))

lemma run_two_exits:
  "st_exits (loopEndR binary64 [candle 0 2 1 1, candle 1000 2 1 1] (Fin 625) (Fin 0)) = 2 \<and>
   st_equity (loopEndR binary64 [candle 0 2 1 1, candle 1000 2 1 1] (Fin 625) (Fin 0)) =
     Fin (4505401247365429 / 4503599627370496)"
  by (simp add: run_defs binary64_zero binary64_1_16 binary64_15_16 binary64_17_16 compound_one compound_two del: binary64.simps(1))

theorem runBacktest_binary64_compounding_witness:
  "exits (runBacktestR binary64 [candle 0 2 1 1, candle 1000 2 1 1] (Fin 625) (Fin 0)) = 2 \<and>
   st_equity (loopEndR binary64 [candle 0 2 1 1, candle 1000 2 1 1] (Fin 625) (Fin 0)) =
     Fin (4505401247365429 / 4503599627370496) \<and>
   (compoundR binary64 ^^ 2) (Fin 1) = Fin (4505401247365429 / 4503599627370496)"
proof -
  have run: "exits (runBacktestR binary64 [candle 0 2 1 1, candle 1000 2 1 1] (Fin 625) (Fin 0)) = 2"
    using run_two_exits by (simp only: runBacktestR_exits)
  from runBacktest_binary64_compounding [OF run] run run_two_exits show ?thesis by simp
qed

text \<open>
  The claim as written fails at the first exit: the accumulator is then the binary64
  number nearest to 1.0002, which is neither 1.0002 nor 1 plus the binary64 value of the
  constant.
\<close>

theorem runBacktest_exact_power_counterexample:
  "exits (runBacktestR binary64 [candle 0 2 1 1] (Fin 625) (Fin 0)) = 1 \<and>
   st_equity (loopEndR binary64 [candle 0 2 1 1] (Fin 625) (Fin 0)) =
     Fin (2252250173647985 / 2251799813685248) \<and>
   Fin (2252250173647985 / 2251799813685248) \<noteq> Fin ((1 + 2 / 10000) ^ 1) \<and>
   Fin (2252250173647985 / 2251799813685248) \<noteq>
     Fin ((1 + 7378697629483821 / 36893488147419103232) ^ 1)"
  using run_one_exit by (simp add: runBacktestR_exits)

section \<open>Properties of the upload\<close>

lemma toNumber_finite: "toNumber N cl = Some v \<Longrightarrow> \<exists>x. v = Fin x"
  by (cases cl; cases v) (auto simp: Let_def split: if_splits)

lemma toMillis_Fin: "toMillis (Fin x) = Fin (if x \<le> 1000000000000 then x * 1000 else x)"
  by (simp add: toMillis_def js_gt_def)

lemma parseRows_bad:
  assumes "\<exists>r \<in> set rows. badRow N r"
  shows "\<exists>j < length rows. badRow N (rows ! j) \<and> (\<forall>k < j. \<not> badRow N (rows ! k)) \<and>
           parseRows N i parsed rows = Inl (rowToast (rows ! j) (i + j + 2))"
  using assms
proof (induction rows arbitrary: i parsed)
  case Nil
  then show ?case by simp
next
  case (Cons r rows)
  show ?case
  proof (cases "badRow N r")
    case True
    then have "parseRows N i parsed (r # rows) = Inl (rowToast r (i + 2))"
      by (cases r) (auto split: option.splits)
    with True show ?thesis by (intro exI [of _ 0]) simp
  next
    case False
    then obtain row ts op' hi lo cl where r: "r = Some row"
      and n: "toNumber N (timestamp row) = Some ts" "toNumber N (open row) = Some op'"
        "toNumber N (high row) = Some hi" "toNumber N (low row) = Some lo"
        "toNumber N (close row) = Some cl"
      by (cases r) auto
    from Cons.prems False have "\<exists>r \<in> set rows. badRow N r" by auto
    from Cons.IH [OF this, of "i + 1" "parsed @ [\<lparr>row_t = toMillis ts, row_o = op', row_h = hi, row_l = lo, row_c = cl\<rparr>]"]
    obtain j where j: "j < length rows" "badRow N (rows ! j)" "\<forall>k < j. \<not> badRow N (rows ! k)"
      "parseRows N (i + 1) (parsed @ [\<lparr>row_t = toMillis ts, row_o = op', row_h = hi, row_l = lo, row_c = cl\<rparr>]) rows
         = Inl (rowToast (rows ! j) (i + 1 + j + 2))"
      by blast
    have "\<forall>k < Suc j. \<not> badRow N ((r # rows) ! k)"
      using False j(3) by (auto simp: nth_Cons split: nat.splits)
    with j r n show ?thesis
      by (intro exI [of _ "Suc j"]) simp
  qed
qed

lemma parseRows_Inr:
  assumes "parseRows N i parsed rows = Inr out"
  shows "length out = length parsed + length rows \<and> (\<forall>r \<in> set rows. \<not> badRow N r)"
  using assms
proof (induction rows arbitrary: i parsed)
  case Nil
  then show ?case by simp
next
  case (Cons r rows)
  then show ?case
    by (cases r) (auto split: option.splits)
qed


text \<open>
  C7, as the code has it. Reading the table is all or nothing. If a required column
  (timestamp, open, high, low, close) is missing from the header, the upload is rejected
  with no candle accepted, whatever the rows are, and, the parser having reported no
  error, the toast lists the missing columns. If some row is no object or has a required
  cell that is not a finite number, no candle is accepted; the toast names the first such
  row, its index plus 2, when the parser has reported no error and the header is complete.
  Whenever candles are accepted, there is one for every row of the table and no row is
  bad. When the parser has reported an error, no candle is accepted and the toast is the
  parser's first message.
\<close>

theorem handleCsvUpload_atomic:
  "((\<exists>h \<in> set REQUIRED_HEADERS. h \<notin> set (case meta_fields results of None \<Rightarrow> [] | Some fs \<Rightarrow> fs)) \<longrightarrow>
      backtestRows (handleCsvUpload N f results) = [] \<and>
      (\<forall>rows'. handleCsvUpload N f (results\<lparr>data := rows'\<rparr>) = handleCsvUpload N f results) \<and>
      (errors results = [] \<longrightarrow>
         missingHeaders results \<noteq> [] \<and>
         shown (handleCsvUpload N f results) = MissingColumns (missingHeaders results))) \<and>
   ((\<exists>r \<in> set (data results). badRow N r) \<longrightarrow>
      backtestRows (handleCsvUpload N f results) = [] \<and>
      (errors results = [] \<and> missingHeaders results = [] \<longrightarrow>
         (\<exists>j < length (data results).
            badRow N (data results ! j) \<and> (\<forall>k < j. \<not> badRow N (data results ! k)) \<and>
            shown (handleCsvUpload N f results) = rowToast (data results ! j) (j + 2)))) \<and>
   (backtestRows (handleCsvUpload N f results) \<noteq> [] \<longrightarrow>
      length (backtestRows (handleCsvUpload N f results)) = length (data results) \<and>
      (\<forall>r \<in> set (data results). \<not> badRow N r)) \<and>
   (errors results \<noteq> [] \<longrightarrow>
      backtestRows (handleCsvUpload N f results) = [] \<and>
      shown (handleCsvUpload N f results) = ParseError (hd (errors results)))"
proof (intro conjI impI)
  assume missing: "\<exists>h \<in> set REQUIRED_HEADERS. h \<notin> set (case meta_fields results of None \<Rightarrow> [] | Some fs \<Rightarrow> fs)"
  then have m: "missingHeaders results \<noteq> []"
    by (auto simp: missingHeaders_def Let_def filter_empty_conv)
  then show "backtestRows (handleCsvUpload N f results) = []"
    by (simp add: handleCsvUpload_def rejected_def split: list.splits)
  have "missingHeaders (results\<lparr>data := rows'\<rparr>) = missingHeaders results" for rows'
    by (simp add: missingHeaders_def)
  with m show "\<forall>rows'. handleCsvUpload N f (results\<lparr>data := rows'\<rparr>) = handleCsvUpload N f results"
    by (simp add: handleCsvUpload_def split: list.splits)
  from m show "missingHeaders results \<noteq> []" .
  assume "errors results = []"
  with m show "shown (handleCsvUpload N f results) = MissingColumns (missingHeaders results)"
    by (simp add: handleCsvUpload_def rejected_def)
next
  assume bad: "\<exists>r \<in> set (data results). badRow N r"
  from parseRows_bad [OF bad, of 0 "[]"]
  obtain j where j: "j < length (data results)" "badRow N (data results ! j)"
      "\<forall>k < j. \<not> badRow N (data results ! k)"
      "parseRows N 0 [] (data results) = Inl (rowToast (data results ! j) (j + 2))"
    by auto
  then show "backtestRows (handleCsvUpload N f results) = []"
    by (simp add: handleCsvUpload_def rejected_def split: list.splits)
  assume "errors results = [] \<and> missingHeaders results = []"
  with j have "shown (handleCsvUpload N f results) = rowToast (data results ! j) (j + 2)"
    by (simp add: handleCsvUpload_def rejected_def)
  with j show "\<exists>j < length (data results).
            badRow N (data results ! j) \<and> (\<forall>k < j. \<not> badRow N (data results ! k)) \<and>
            shown (handleCsvUpload N f results) = rowToast (data results ! j) (j + 2)"
    by blast
next
  assume ne: "backtestRows (handleCsvUpload N f results) \<noteq> []"
  then obtain parsed where "parseRows N 0 [] (data results) = Inr parsed"
      "backtestRows (handleCsvUpload N f results) = parsed"
    by (auto simp: handleCsvUpload_def rejected_def split: list.splits if_splits sum.splits)
  with parseRows_Inr [of N 0 "[]" "data results" parsed]
  show "length (backtestRows (handleCsvUpload N f results)) = length (data results)"
    and "\<forall>r \<in> set (data results). \<not> badRow N r"
    by simp_all
next
  assume "errors results \<noteq> []"
  then obtain e es where "errors results = e # es"
    by (cases "errors results") auto
  then show "backtestRows (handleCsvUpload N f results) = []"
    and "shown (handleCsvUpload N f results) = ParseError (hd (errors results))"
    by (simp_all add: handleCsvUpload_def rejected_def)
qed

theorem handleCsvUpload_atomic_witness:
  "badRow sampleNumber (data sampleTable ! 2) \<and>
   backtestRows (handleCsvUpload sampleNumber ''candles.csv'' sampleTable) = [] \<and>
   shown (handleCsvUpload sampleNumber ''candles.csv'' sampleTable) = NumericValuesRequired 4"
proof -
  have bad: "badRow sampleNumber (data sampleTable ! 2)"
    by code_simp
  have member: "data sampleTable ! 2 \<in> set (data sampleTable)"
    by (simp add: sampleTable_def)
  have msg: "shown (handleCsvUpload sampleNumber ''candles.csv'' sampleTable) = NumericValuesRequired 4"
    by code_simp
  from handleCsvUpload_atomic [of sampleTable sampleNumber "''candles.csv''"] bad member
  have "backtestRows (handleCsvUpload sampleNumber ''candles.csv'' sampleTable) = []"
    by blast
  with bad msg show ?thesis by blast
qed

text \<open>
  The claim as written fails for a row with a missing cell: the parser reports the short
  row, the handler shows the parser's message, and that message names no row.
\<close>

theorem handleCsvUpload_row_counterexample:
  "badRow sampleNumber (data shortTable ! 0) \<and>
   backtestRows (handleCsvUpload sampleNumber ''candles.csv'' shortTable) = [] \<and>
   shown (handleCsvUpload sampleNumber ''candles.csv'' shortTable) =
     ParseError ''Too few fields: expected 5 fields but parsed 4'' \<and>
   shown (handleCsvUpload sampleNumber ''candles.csv'' shortTable) \<noteq>
     rowToast (data shortTable ! 0) 2"
  by code_simp

text \<open>
  C8, as the code has it. The time stored for a parsed timestamp \<open>v\<close>, which is finite,
  is \<open>v * 1000\<close> when \<open>v\<close> is at most \<open>10^12\<close> and \<open>v\<close> itself when it is above: the
  comparison of \<open>toMillis\<close> is a strict \<open>rawTimestamp > 10^12\<close>.
\<close>

theorem toMillis_threshold:
  assumes "toNumber N cl = Some v"
  shows "\<exists>x. v = Fin x \<and> toMillis v = Fin (if x \<le> 1000000000000 then x * 1000 else x)"
  using toNumber_finite [OF assms] by (auto simp: toMillis_Fin)

theorem toMillis_threshold_witness:
  "toNumber sampleNumber (NumberCell (Fin 1700000000)) = Some (Fin 1700000000) \<and>
   toMillis (Fin 1700000000) = Fin 1700000000000"
proof -
  have num: "toNumber sampleNumber (NumberCell (Fin 1700000000)) = Some (Fin 1700000000)"
    by simp
  from toMillis_threshold [OF num] num show ?thesis by simp
qed

text \<open>
  The claim as written fails at the threshold itself: \<open>10^12\<close> is multiplied by 1000.
\<close>

theorem toMillis_boundary_counterexample:
  "toNumber sampleNumber (NumberCell (Fin 1000000000000)) = Some (Fin 1000000000000) \<and>
   toMillis (Fin 1000000000000) = Fin 1000000000000000 \<and>
   toMillis (Fin 1000000000000) \<noteq> Fin 1000000000000"
  by (simp add: toMillis_def js_gt_def)

end
